theory Spec2Isabelle
  imports Main
begin

section \<open>JavaScript values used by the adapter\<close>

text \<open>
  Optional properties (\<open>x?: T\<close>, \<open>T | undefined\<close>, \<open>T | null\<close>) are \<open>option\<close>s.
  The source tests most of them for truthiness (\<open>if (config.file)\<close>, \<open>a || b\<close>):
  an absent value, the empty string, \<open>false\<close> and \<open>0\<close> are falsy.
\<close>

definition truthyString :: "string option \<Rightarrow> bool" where
  "truthyString v = (case v of None \<Rightarrow> False | Some s \<Rightarrow> s \<noteq> [])"

definition truthyBool :: "bool option \<Rightarrow> bool" where
  "truthyBool v = (case v of None \<Rightarrow> False | Some b \<Rightarrow> b)"

definition endsWith :: "string \<Rightarrow> char \<Rightarrow> bool" where
  \<comment> \<open>\<open>s.endsWith(c)\<close> for a one-character argument\<close>
  "endsWith s c = (case rev s of [] \<Rightarrow> False | x # _ \<Rightarrow> x = c)"

text \<open>
  \<open>s.split(c)\<close> for a one-character separator: the pieces between the separators, never
  an empty array (the second case of the inner \<open>case\<close> cannot arise).
\<close>

fun split :: "char \<Rightarrow> string \<Rightarrow> string list" where
  "split c [] = [[]]"
| "split c (x # xs) =
     (if x = c then [] # split c xs
      else (case split c xs of w # ws \<Rightarrow> (x # w) # ws | [] \<Rightarrow> [[x]]))"

text \<open>\<open>s.replace(c, r)\<close> with a string pattern: only the first occurrence is replaced.\<close>

fun replaceFirst :: "char \<Rightarrow> string \<Rightarrow> string \<Rightarrow> string" where
  "replaceFirst c r [] = []"
| "replaceFirst c r (x # xs) = (if x = c then r @ xs else x # replaceFirst c r xs)"

definition lastIndexOf :: "string \<Rightarrow> char \<Rightarrow> int" where
  "lastIndexOf s c =
     (if c \<in> set s then int (length s) - 1 - int (length (takeWhile (\<lambda>x. x \<noteq> c) (rev s)))
      else - 1)"

definition backslash :: string where
  "backslash = [char_of (92::nat)]"

section \<open>Configuration parsing (parseConfiguration)\<close>

text \<open>
  \<open>type PathMapping = { url: string | RegExp, path: string | null }\<close>. A RegExp is kept
  as its source text.
\<close>

datatype UrlPattern = UrlString string | UrlRegExp string

record PathMapping =
  url :: UrlPattern
  path :: "string option"

definition harmonizeTrailingSlashes :: "PathMapping \<Rightarrow> PathMapping" where
  "harmonizeTrailingSlashes pathMapping =
     (case (url pathMapping, path pathMapping) of
        (UrlString u, Some p) \<Rightarrow>
          (if endsWith u CHR ''/'' then
             (if endsWith p CHR ''/'' then pathMapping
              else \<lparr> url = UrlString u, path = Some (p @ ''/'') \<rparr>)
           else
             (if endsWith p CHR ''/'' then \<lparr> url = UrlString (u @ ''/''), path = Some p \<rparr>
              else pathMapping))
      | _ \<Rightarrow> pathMapping)"

text \<open>
  \<open>LaunchConfiguration | AttachConfiguration\<close> (common/configuration.ts) as one record,
  discriminated by \<open>request\<close>; an attach configuration leaves the launch-only
  properties (file, firefoxExecutable, profileDir, profile, keepProfileChanges, preferences,
  firefoxArgs, timeout, reAttach) unset. The properties \<open>file\<close> and \<open>url\<close> are named
  \<open>configFile\<close> and \<open>configUrl\<close> here (\<open>file\<close> is a keyword, \<open>url\<close> is a field of
  PathMapping); \<open>log\<close> is not read by parseConfiguration and is left out.
\<close>

datatype Request = Launch | Attach

datatype PrefValue = PrefBool bool | PrefNumber int | PrefString string

datatype StringOrStrings = OneString string | ManyStrings "string list"

datatype Debounce = DebounceNumber int | DebounceBool bool

record DetailedReloadConfiguration =
  watch :: StringOrStrings
  ignore :: "StringOrStrings option"
  debounce :: "Debounce option"

datatype ReloadConfiguration =
    ReloadString string
  | ReloadArray "string list"
  | ReloadDetailed DetailedReloadConfiguration

datatype SourceMaps = Client | Server

record Configuration =
  request :: Request
  configFile :: "string option"
  firefoxExecutable :: "string option"
  profileDir :: "string option"
  profile :: "string option"
  keepProfileChanges :: "bool option"
  preferences :: "(string \<times> PrefValue option) list option"
  port :: "int option"
  firefoxArgs :: "string list option"
  timeout :: "int option"
  reAttach :: "bool option"
  host :: "string option"
  configUrl :: "string option"
  webRoot :: "string option"
  reloadOnAttach :: "bool option"
  reloadOnChange :: "ReloadConfiguration option"
  clearConsoleOnReload :: "bool option"
  pathMappings :: "PathMapping list option"
  skipFiles :: "string list option"
  showConsoleCallLocation :: "bool option"
  addonPath :: "string option"
  popupAutohideButton :: "bool option"
  sourceMaps :: "SourceMaps option"
  liftAccessorsFromPrototypes :: "int option"

text \<open>
  What parseConfiguration reads from outside the repository's sources: the file system
  (\<open>isExecutable\<close>), \<open>os\<close>, \<open>path\<close>, \<open>process.env.PATH\<close>, \<open>uuid.v4()\<close>, the firefox-profile
  finder (\<open>Inl err\<close> when its callback reports an error), \<open>findAddonId\<close>, \<open>normalizePath\<close>,
  \<open>isAbsoluteUrl\<close>, Minimatch's \<open>makeRe\<close> (None for \<open>false\<close>), \<open>String(port)\<close> and the
  \<open>RegExp\<close> constructor (\<open>regExpAccepts\<close>: whether the text is a pattern; \<open>new RegExp\<close>
  throws a SyntaxError when it is not).
\<close>

record Env =
  isExecutable :: "string \<Rightarrow> bool"
  platform :: string
  envPATH :: string
  isWindowsPlatform :: bool
  pathIsAbsolute :: "string \<Rightarrow> bool"
  pathJoin :: "string \<Rightarrow> string \<Rightarrow> string"
  tmpdir :: string
  uuidV4 :: string
  finderGetPath :: "string \<Rightarrow> string + string"
  findAddonId :: "string \<Rightarrow> string + string option"
  normalizePath :: "string \<Rightarrow> string"
  isAbsoluteUrl :: "string \<Rightarrow> bool"
  minimatchMakeRe :: "string \<Rightarrow> string option"
  numberToString :: "int \<Rightarrow> string"
  regExpAccepts :: "string \<Rightarrow> bool"

text \<open>
  The values parseConfiguration throws. Each constructor but the last stands for one
  message string of the source:
  \<^item> ExecutableNotFoundAtConfiguredPath: Couldn't find the Firefox executable. Please correct
    the path given in your launch configuration.
  \<^item> ExecutableNotFound: Couldn't find the Firefox executable. Please specify the path by
    setting "firefoxExecutable" in your launch configuration.
  \<^item> ProfileAndProfileDir: You can set either "profile" or "profileDir", but not both
  \<^item> KeepProfileChangesWithoutProfile: To enable "keepProfileChanges" you need to set either
    "profile" or "profileDir"
  \<^item> FileNotAbsolute: The "file" property in the launch configuration has to be an absolute path
  \<^item> NeitherFileNorUrl: You need to set either "file" or "url" in the launch configuration
  \<^item> UrlWithoutWebRootOrPathMappings r: If you set "url" you also have to set "webRoot" or
    "pathMappings" in the r configuration
  \<^item> WebRootNotAbsolute r: The "webRoot" property in the r configuration has to be an absolute path
  \<^item> WebRootWithoutUrl r: If you set "webRoot" you also have to set "url" in the r configuration
  \<^item> CollaboratorRejected err: a rejection passed on from the profile finder or findAddonId.
  \<^item> RegExpSyntaxError p: the SyntaxError of \<open>new RegExp(p)\<close> for a text p that is no pattern.
\<close>

datatype ConfigError =
    ExecutableNotFoundAtConfiguredPath
  | ExecutableNotFound
  | ProfileAndProfileDir
  | KeepProfileChangesWithoutProfile
  | FileNotAbsolute
  | NeitherFileNorUrl
  | UrlWithoutWebRootOrPathMappings Request
  | WebRootNotAbsolute Request
  | WebRootWithoutUrl Request
  | CollaboratorRejected string
  | RegExpSyntaxError string

record NormalizedReloadConfiguration =
  reloadWatch :: "string list"
  reloadIgnore :: "string list"
  reloadDebounce :: int

record ParsedAttachConfiguration =
  attachHost :: string
  attachPort :: int
  reloadTabs :: bool

record ParsedLaunchConfiguration =
  launchFirefoxExecutable :: string
  launchFirefoxArgs :: "string list"
  launchProfileDir :: string
  srcProfileDir :: "string option"
  launchPreferences :: "string \<rightharpoonup> PrefValue"
  tmpDirs :: "string list"
  launchPort :: int
  launchTimeout :: int
  detached :: bool

record ParsedAddonConfiguration =
  addonConfigPath :: string
  addonId :: "string option"
  addonPopupAutohideButton :: bool

record ParsedConfiguration =
  attach :: "ParsedAttachConfiguration option"
  launch :: "ParsedLaunchConfiguration option"
  addon :: "ParsedAddonConfiguration option"
  parsedPathMappings :: "PathMapping list"
  filesToSkip :: "string list"
  parsedReloadOnChange :: "NormalizedReloadConfiguration option"
  parsedClearConsoleOnReload :: bool
  parsedSourceMaps :: SourceMaps
  parsedShowConsoleCallLocation :: bool
  parsedLiftAccessorsFromPrototypes :: int

definition findFirefoxExecutable :: "Env \<Rightarrow> string option \<Rightarrow> ConfigError + string" where
  "findFirefoxExecutable env configuredPath =
     (if truthyString configuredPath then
        (if isExecutable env (the configuredPath) then Inr (the configuredPath)
         else Inl ExecutableNotFoundAtConfiguredPath)
      else
        (let candidates =
               (if platform env \<in> {''linux'', ''freebsd'', ''sunos''} then
                  (let paths = split CHR '':'' (envPATH env)
                   in map (\<lambda>dir. pathJoin env dir ''firefox-developer-edition'') paths
                      @ map (\<lambda>dir. pathJoin env dir ''firefox-developer'') paths
                      @ map (\<lambda>dir. pathJoin env dir ''firefox'') paths)
                else if platform env = ''darwin'' then
                  [''/Applications/Firefox Developer Edition.app/Contents/MacOS/firefox'',
                   ''/Applications/FirefoxDeveloperEdition.app/Contents/MacOS/firefox'',
                   ''/Applications/Firefox.app/Contents/MacOS/firefox'']
                else if platform env = ''win32'' then
                  [''C:'' @ backslash @ ''Program Files (x86)'' @ backslash
                     @ ''Firefox Developer Edition'' @ backslash @ ''firefox.exe'',
                   ''C:'' @ backslash @ ''Program Files'' @ backslash
                     @ ''Firefox Developer Edition'' @ backslash @ ''firefox.exe'',
                   ''C:'' @ backslash @ ''Program Files (x86)'' @ backslash
                     @ ''Mozilla Firefox'' @ backslash @ ''firefox.exe'',
                   ''C:'' @ backslash @ ''Program Files'' @ backslash
                     @ ''Mozilla Firefox'' @ backslash @ ''firefox.exe'']
                else [])
         in case find (isExecutable env) candidates of
              Some c \<Rightarrow> Inr c
            | None \<Rightarrow> Inl ExecutableNotFound))"

definition findFirefoxProfileDir :: "Env \<Rightarrow> string \<Rightarrow> ConfigError + string" where
  "findFirefoxProfileDir env profileName =
     (case finderGetPath env profileName of
        Inl err \<Rightarrow> Inl (CollaboratorRejected err)
      | Inr p \<Rightarrow> Inr p)"

text \<open>
  The third argument and the third component of the result are \<open>tmpDirs\<close>, which the source
  extends in place.
\<close>

definition parseProfileConfiguration ::
  "Env \<Rightarrow> Configuration \<Rightarrow> string list \<Rightarrow> ConfigError + (string \<times> string option \<times> string list)" where
  "parseProfileConfiguration env config tmpDirs0 =
     (case (if truthyString (profileDir config) then
              (if truthyString (profile config) then Inl ProfileAndProfileDir
               else Inr (profileDir config))
            else if truthyString (profile config) then
              (case findFirefoxProfileDir env (the (profile config)) of
                 Inl e \<Rightarrow> Inl e
               | Inr p \<Rightarrow> Inr (Some p))
            else Inr None) of
        Inl e \<Rightarrow> Inl e
      | Inr src \<Rightarrow>
          (if truthyBool (keepProfileChanges config) then
             (if truthyString src then Inr (the src, None, tmpDirs0)
              else Inl KeepProfileChangesWithoutProfile)
           else
             (let dir = pathJoin env (tmpdir env) (''vscode-firefox-debug-profile-'' @ uuidV4 env)
              in Inr (dir, src, tmpDirs0 @ [dir]))))"

definition defaultPreferences :: "(string \<times> PrefValue) list" where
  "defaultPreferences =
     [(''devtools.chrome.enabled'', PrefBool True),
      (''devtools.debugger.prompt-connection'', PrefBool False),
      (''devtools.debugger.remote-enabled'', PrefBool True),
      (''extensions.autoDisableScopes'', PrefNumber 10),
      (''xpinstall.signatures.required'', PrefBool False),
      (''extensions.sdk.console.logLevel'', PrefString ''all''),
      (''browser.shell.checkDefaultBrowser'', PrefBool False),
      (''datareporting.policy.dataSubmissionPolicyBypassNotification'', PrefBool True),
      (''browser.startup.homepage_override.mstone'', PrefString ''ignore''),
      (''browser.uitour.enabled'', PrefBool False),
      (''browser.warnOnQuit'', PrefBool False)]"

text \<open>\<open>null\<close> as the value of an additional preference deletes the key.\<close>

definition createFirefoxPreferences ::
  "(string \<times> PrefValue option) list option \<Rightarrow> (string \<rightharpoonup> PrefValue)" where
  "createFirefoxPreferences additionalPreferences =
     (let preferences = fold (\<lambda>(k, v) m. m(k \<mapsto> v)) defaultPreferences Map.empty
      in case additionalPreferences of
           None \<Rightarrow> preferences
         | Some kvs \<Rightarrow> fold (\<lambda>(k, v) m. m(k := v)) kvs preferences)"

text \<open>
  parseWebRootConfiguration rewrites \<open>${webRoot}\<close> prefixes of the path mappings in place and
  pushes one mapping; the model returns the new list with the web root.
\<close>

definition parseWebRootConfiguration ::
  "Env \<Rightarrow> Configuration \<Rightarrow> PathMapping list \<Rightarrow> ConfigError + (string option \<times> PathMapping list)" where
  "parseWebRootConfiguration env config pathMappings0 =
     (if truthyString (configUrl config) then
        (if \<not> truthyString (webRoot config) then
           (if pathMappings config = None then Inl (UrlWithoutWebRootOrPathMappings (request config))
            else Inr (None, pathMappings0))
         else if \<not> pathIsAbsolute env (the (webRoot config))
                 \<and> \<not> isAbsoluteUrl env (the (webRoot config)) then
           Inl (WebRootNotAbsolute (request config))
         else
           (let u = the (configUrl config);
                webRootUrl = (if lastIndexOf u CHR ''/'' > 7
                              then take (nat (lastIndexOf u CHR ''/'')) u else u);
                root = (if isAbsoluteUrl env (the (webRoot config)) then the (webRoot config)
                        else normalizePath env (the (webRoot config)));
                rewritten = map (\<lambda>pathMapping.
                    (case path pathMapping of
                       Some to \<Rightarrow>
                         (if take 10 to = ''${webRoot}''
                          then pathMapping\<lparr> path := Some (root @ drop 10 to) \<rparr>
                          else pathMapping)
                     | None \<Rightarrow> pathMapping)) pathMappings0
            in Inr (Some root, rewritten @ [\<lparr> url = UrlString webRootUrl, path = Some root \<rparr>])))
      else if truthyString (webRoot config) then Inl (WebRootWithoutUrl (request config))
      else Inr (None, pathMappings0))"

definition parseSkipFilesConfiguration :: "Env \<Rightarrow> Configuration \<Rightarrow> string list" where
  "parseSkipFilesConfiguration env config =
     (case skipFiles config of
        None \<Rightarrow> []
      | Some globs \<Rightarrow> List.map_filter (minimatchMakeRe env) globs)"

definition stringsOf :: "StringOrStrings \<Rightarrow> string list" where
  "stringsOf v = (case v of OneString s \<Rightarrow> [s] | ManyStrings ss \<Rightarrow> ss)"

definition parseReloadConfiguration ::
  "Env \<Rightarrow> ReloadConfiguration option \<Rightarrow> NormalizedReloadConfiguration option" where
  "parseReloadConfiguration env reloadConfig =
     (case reloadConfig of
        None \<Rightarrow> None
      | Some (ReloadString s) \<Rightarrow>
          Some \<lparr> reloadWatch = [normalizePath env s], reloadIgnore = [], reloadDebounce = 100 \<rparr>
      | Some (ReloadArray ss) \<Rightarrow>
          Some \<lparr> reloadWatch = map (normalizePath env) ss, reloadIgnore = [], reloadDebounce = 100 \<rparr>
      | Some (ReloadDetailed c) \<Rightarrow>
          Some \<lparr> reloadWatch = map (normalizePath env) (stringsOf (watch c)),
                 reloadIgnore = map (normalizePath env)
                   (case ignore c of None \<Rightarrow> [] | Some i \<Rightarrow> stringsOf i),
                 reloadDebounce =
                   (case debounce c of
                      Some (DebounceNumber n) \<Rightarrow> n
                    | Some (DebounceBool b) \<Rightarrow> (if b then 100 else 0)
                    | None \<Rightarrow> 100) \<rparr>)"

text \<open>
  parseAddonConfiguration pushes one or two mappings; the model returns the new list. The
  first pattern is a constant. The second one contains the add-on id as it is (only the
  first brace of each kind is replaced), and \<open>new RegExp\<close> throws when that text is no
  pattern.
\<close>

definition parseAddonConfiguration ::
  "Env \<Rightarrow> Configuration \<Rightarrow> PathMapping list
    \<Rightarrow> ConfigError + (ParsedAddonConfiguration \<times> PathMapping list)" where
  "parseAddonConfiguration env config pathMappings0 =
     (let addonPath' = the (addonPath config);
          popup = (popupAutohideButton config \<noteq> Some False)
      in case findAddonId env addonPath' of
           Inl err \<Rightarrow> Inl (CollaboratorRejected err)
         | Inr ident \<Rightarrow>
             (let sanitizedAddonPath =
                    (if endsWith addonPath' CHR ''/'' then butlast addonPath' else addonPath');
                  pathMappings1 = pathMappings0 @
                    [\<lparr> url = UrlRegExp ''^moz-extension://[0-9a-f-]*(/.*)$'',
                       path = Some sanitizedAddonPath \<rparr>];
                  parsed = \<lparr> addonConfigPath = addonPath', addonId = ident,
                             addonPopupAutohideButton = popup \<rparr>
              in if truthyString ident then
                   (let rewrittenAddonId =
                          replaceFirst CHR ''}'' ''%7D'' (replaceFirst CHR ''{'' ''%7B'' (the ident));
                        pattern = ''^jar:file:.*/extensions/'' @ rewrittenAddonId @ ''.xpi!(/.*)$''
                    in if regExpAccepts env pattern then
                         Inr (parsed, pathMappings1 @
                                [\<lparr> url = UrlRegExp pattern, path = Some sanitizedAddonPath \<rparr>])
                       else Inl (RegExpSyntaxError pattern))
                 else Inr (parsed, pathMappings1)))"

text \<open>The body of \<open>if (config.request === 'launch') { ... }\<close>.\<close>

definition parseLaunch ::
  "Env \<Rightarrow> Configuration \<Rightarrow> int
    \<Rightarrow> ConfigError + (ParsedAttachConfiguration option \<times> ParsedLaunchConfiguration)" where
  "parseLaunch env config port' =
     (let attach' =
            (if truthyBool (reAttach config) then
               Some \<lparr> attachHost = ''localhost'', attachPort = port',
                      reloadTabs = (reloadOnAttach config \<noteq> Some False) \<rparr>
             else None)
      in case findFirefoxExecutable env (firefoxExecutable config) of
           Inl e \<Rightarrow> Inl e
         | Inr exe \<Rightarrow>
             (let args0 = [''-start-debugger-server'', numberToString env port', ''-no-remote'']
                          @ (case firefoxArgs config of None \<Rightarrow> [] | Some a \<Rightarrow> a)
              in case parseProfileConfiguration env config [] of
                   Inl e \<Rightarrow> Inl e
                 | Inr (profileDir', src, tmpDirs') \<Rightarrow>
                     (let args1 = args0 @ [''-profile'', profileDir'];
                          preferences' = createFirefoxPreferences (preferences config)
                      in case (if truthyString (configFile config) then
                                 (if \<not> pathIsAbsolute env (the (configFile config)) then Inl FileNotAbsolute
                                  else Inr (args1 @
                                    [if isWindowsPlatform env
                                     then ''file:///'' @ map (\<lambda>c. if [c] = backslash then CHR ''/'' else c)
                                                            (the (configFile config))
                                     else ''file://'' @ the (configFile config)]))
                               else if truthyString (configUrl config) then
                                 Inr (args1 @ [the (configUrl config)])
                               else if truthyString (addonPath config) then
                                 Inr (args1 @ [''about:blank''])
                               else Inl NeitherFileNorUrl) of
                           Inl e \<Rightarrow> Inl e
                         | Inr args2 \<Rightarrow>
                             Inr (attach',
                                  \<lparr> launchFirefoxExecutable = exe, launchFirefoxArgs = args2,
                                    launchProfileDir = profileDir', srcProfileDir = src,
                                    launchPreferences = preferences', tmpDirs = tmpDirs',
                                    launchPort = port',
                                    launchTimeout = (case timeout config of Some t \<Rightarrow> t | None \<Rightarrow> 5),
                                    detached = truthyBool (reAttach config) \<rparr>))))"

definition parseConfiguration :: "Env \<Rightarrow> Configuration \<Rightarrow> ConfigError + ParsedConfiguration" where
  "parseConfiguration env config =
     (let port' = (case port config of Some p \<Rightarrow> (if p = 0 then 6000 else p) | None \<Rightarrow> 6000)
      in case (if request config = Launch then
                 (case parseLaunch env config port' of
                    Inl e \<Rightarrow> Inl e
                  | Inr (a, l) \<Rightarrow> Inr (a, Some l))
               else
                 Inr (Some \<lparr> attachHost = (if truthyString (host config) then the (host config)
                                            else ''localhost''),
                             attachPort = port',
                             reloadTabs = truthyBool (reloadOnAttach config) \<rparr>, None)) of
           Inl e \<Rightarrow> Inl e
         | Inr (attach', launch') \<Rightarrow>
             (let pathMappings0 =
                    (case pathMappings config of
                       None \<Rightarrow> []
                     | Some ms \<Rightarrow> map harmonizeTrailingSlashes ms)
              in case (if truthyString (addonPath config) then
                         (case parseAddonConfiguration env config pathMappings0 of
                            Inl e \<Rightarrow> Inl e
                          | Inr (a, ms) \<Rightarrow> Inr (Some a, ms))
                       else Inr (None, pathMappings0)) of
                   Inl e \<Rightarrow> Inl e
                 | Inr (addon', pathMappings1) \<Rightarrow>
                     (case parseWebRootConfiguration env config pathMappings1 of
                        Inl e \<Rightarrow> Inl e
                      | Inr (webRoot', pathMappings2) \<Rightarrow>
                          (let pathMappings3 =
                                 (if truthyString webRoot' then
                                    pathMappings2 @
                                      [\<lparr> url = UrlString ''webpack:///~/'',
                                         path = Some (the webRoot' @ ''/node_modules/'') \<rparr>,
                                       \<lparr> url = UrlString ''webpack:///./~/'',
                                         path = Some (the webRoot' @ ''/node_modules/'') \<rparr>,
                                       \<lparr> url = UrlString ''webpack:///./'',
                                         path = Some (the webRoot' @ ''/'') \<rparr>,
                                       \<lparr> url = UrlString ''webpack:///src/'',
                                         path = Some (the webRoot' @ ''/src/'') \<rparr>]
                                  else pathMappings2);
                               pathMappings4 = pathMappings3 @
                                 [\<lparr> url = UrlString (if isWindowsPlatform env then ''webpack:///''
                                                       else ''webpack://''), path = Some [] \<rparr>,
                                  \<lparr> url = UrlString (if isWindowsPlatform env then ''file:///''
                                                       else ''file://''), path = Some [] \<rparr>]
                           in Inr \<lparr> attach = attach', launch = launch', addon = addon',
                                    parsedPathMappings = pathMappings4,
                                    filesToSkip = parseSkipFilesConfiguration env config,
                                    parsedReloadOnChange =
                                      parseReloadConfiguration env (reloadOnChange config),
                                    parsedClearConsoleOnReload =
                                      truthyBool (clearConsoleOnReload config),
                                    parsedSourceMaps =
                                      (case sourceMaps config of Some m \<Rightarrow> m | None \<Rightarrow> Client),
                                    parsedShowConsoleCallLocation =
                                      truthyBool (showConsoleCallLocation config),
                                    parsedLiftAccessorsFromPrototypes =
                                      (case liftAccessorsFromPrototypes config of
                                         Some n \<Rightarrow> n | None \<Rightarrow> 0) \<rparr>))))"

section \<open>SourceAdapter.createSource\<close>

text \<open>
  The properties of \<open>ISourceActorProxy\<close> that the adapter reads: \<open>actor.url\<close>,
  \<open>actor.name\<close>, \<open>actor.source.introductionType\<close> and \<open>actor.source.isBlackBoxed\<close>
  (\<open>url\<close> and \<open>name\<close> are fields of other records here, hence the prefix).
  \<open>Source\<close> is the class of vscode-debugadapter: \<open>new Source(name, path?, id = 0)\<close>.
\<close>

record ISourceActorProxy =
  actorUrl :: "string option"
  actorName :: string
  introductionType :: "string option"
  isBlackBoxed :: bool

record Source =
  name :: string
  sourcePathOrUrl :: "string option"
  sourceReference :: nat
  presentationHint :: "string option"

text \<open>
  \<open>actorIdRegex = /[0-9]+$/\<close>; \<open>exec\<close> tries the start positions from left to right, and
  at each one the match succeeds when the rest of the string is a non-empty run of digits.
\<close>

definition isDigit :: "char \<Rightarrow> bool" where
  "isDigit c = (c \<in> set ''0123456789'')"

fun actorIdRegex_exec :: "string \<Rightarrow> string option" where
  "actorIdRegex_exec [] = None"
| "actorIdRegex_exec (x # xs) =
     (if list_all isDigit (x # xs) then Some (x # xs) else actorIdRegex_exec xs)"

definition newSource :: "string \<Rightarrow> string option \<Rightarrow> nat \<Rightarrow> Source" where
  "newSource n p i = \<lparr> name = n, sourcePathOrUrl = p, sourceReference = i, presentationHint = None \<rparr>"

definition createSource :: "ISourceActorProxy \<Rightarrow> string option \<Rightarrow> nat \<Rightarrow> Source" where
  "createSource actor sourcePath ident =
     (let sourceName =
            (case actorUrl actor of
               Some u \<Rightarrow> hd (split CHR ''#'' (last (split CHR ''/'' u)))
             | None \<Rightarrow>
                 (case actorIdRegex_exec (actorName actor) of
                    Some m \<Rightarrow>
                      (if truthyString (introductionType actor) then the (introductionType actor)
                       else ''Script'') @ '' '' @ m
                  | None \<Rightarrow> ''''));
          source =
            (case sourcePath of
               Some p \<Rightarrow> newSource sourceName (Some p) 0
             | None \<Rightarrow>
                 newSource sourceName
                   (if truthyString (actorUrl actor) then actorUrl actor else None) ident)
      in if isBlackBoxed actor then source\<lparr> presentationHint := Some ''deemphasize'' \<rparr>
         else source)"

section \<open>SourceAdapter: breakpoint reconciliation\<close>

subsection \<open>Breakpoints\<close>

text \<open>
  \<open>DebugProtocol.SourceBreakpoint\<close> with the properties the adapter reads, and
  \<open>BreakpointInfo\<close> with the fields the adapter reads and writes.
\<close>

record SourceBreakpoint =
  line :: int
  column :: "int option"
  condition :: "string option"
  logMessage :: "string option"

record BreakpointInfo =
  requestedBreakpoint :: SourceBreakpoint
  actualLine :: "int option"
  actualColumn :: "int option"

text \<open>
  Modelled from the spec: \<open>BreakpointInfo.isEquivalent\<close> (adapter/breakpoint.ts is not
  among the sources). Section 3 of the spec: the equivalence key is derived from requested
  line, column, condition and log-message, and two descriptors are equivalent iff this key
  matches.
\<close>

definition isEquivalent :: "BreakpointInfo \<Rightarrow> BreakpointInfo \<Rightarrow> bool" where
  "isEquivalent this other =
     (let bp1 = requestedBreakpoint this; bp2 = requestedBreakpoint other
      in line bp1 = line bp2 \<and> column bp1 = column bp2
         \<and> condition bp1 = condition bp2 \<and> logMessage bp1 = logMessage bp2)"

text \<open>
  The two adapter classes, as syncBreakpoints constructs them:
  \<open>new OldProtocolBreakpointAdapter(desiredBreakpoint, setBreakpointResult.breakpointActor)\<close>
  and \<open>new NewProtocolBreakpointAdapter(breakpointInfo, this)\<close>.
\<close>

datatype BreakpointAdapter =
    OldProtocolBreakpointAdapter BreakpointInfo string
  | NewProtocolBreakpointAdapter BreakpointInfo

fun breakpointInfo :: "BreakpointAdapter \<Rightarrow> BreakpointInfo" where
  "breakpointInfo (OldProtocolBreakpointAdapter b _) = b"
| "breakpointInfo (NewProtocolBreakpointAdapter b) = b"

text \<open>
  The result of the source actor's \<open>setBreakpoint\<close> (legacy protocol): an optional actual
  location \<open>{ line, column? }\<close> and the breakpoint actor.
\<close>

record SetBreakpointResult =
  actualLocation :: "(int \<times> int option) option"
  breakpointActor :: string

subsection \<open>State\<close>

text \<open>
  What a run of syncBreakpoints does to the outside, in the order it does it. Every action
  carries the number of the run (the invocation of syncBreakpoints) it belongs to.
  \<^item> SyncStarted r d: run r started and captured the pending set d (None: undefined);
  \<^item> DeleteCall r a: \<open>a.delete()\<close> was called;
  \<^item> DeletionsCompleted r: \<open>await Promise.all(deletionPromises)\<close> returned;
  \<^item> GetBreakpointPositionsCall r: \<open>this.actor.getBreakpointPositions()\<close> was called;
  \<^item> ThreadSetBreakpointCall r line column url condition logValue: the thread actor's
    \<open>setBreakpoint\<close> was called (new protocol);
  \<^item> SourceSetBreakpointCall r line column condition: the source actor's \<open>setBreakpoint\<close>
    was called (legacy protocol);
  \<^item> VerifyBreakpointCall r b line column: \<open>breakpointsManager.verifyBreakpoint\<close> was called;
  \<^item> SyncFinished r: the run reached its last statement;
  \<^item> SyncRejected r: the run ended by an exception (the promise of the async function
    is rejected).
\<close>

datatype Action =
    SyncStarted nat "BreakpointInfo list option"
  | DeleteCall nat BreakpointAdapter
  | DeletionsCompleted nat
  | GetBreakpointPositionsCall nat
  | ThreadSetBreakpointCall nat "int option" "int option" "string option" "string option" "string option"
  | SourceSetBreakpointCall nat int "int option" "string option"
  | VerifyBreakpointCall nat BreakpointInfo "int option" "int option"
  | SyncFinished nat
  | SyncRejected nat

text \<open>
  A run of the async function syncBreakpoints that waits at one of its three kinds of
  \<open>await\<close>, with the local variables it still needs:
  \<^item> AwaitDeletions desiredBreakpoints breakpointsToKeep
    (at \<open>await Promise.all(deletionPromises)\<close>);
  \<^item> AwaitBreakpointPositions breakpointsToKeep breakpointsToAdd
    (at \<open>await this.actor.getBreakpointPositions()\<close>);
  \<^item> AwaitAdditions breakpointsToKeep breakpointsToAdd
    (at \<open>await Promise.all(additionPromises)\<close>).
\<close>

datatype Suspended =
    AwaitDeletions "BreakpointInfo list option" "BreakpointAdapter list"
  | AwaitBreakpointPositions "BreakpointAdapter list" "BreakpointInfo list"
  | AwaitAdditions "BreakpointAdapter list" "BreakpointInfo list"

text \<open>
  The fields of the class (actor, currentBreakpoints, desiredBreakpoints,
  isSyncingBreakpoints, newBreakpointProtocol) and, to run it, the event loop around it:
  the runs of syncBreakpoints that wait at an \<open>await\<close>, the number of actions
  \<open>() => this.syncBreakpoints()\<close> given to \<open>runOnPausedThread\<close> and not yet started, the
  number of the next run, and the actions so far.
\<close>

record SourceAdapter =
  actor :: ISourceActorProxy
  currentBreakpoints :: "BreakpointAdapter list"
  desiredBreakpoints :: "BreakpointInfo list option"
  isSyncingBreakpoints :: bool
  newBreakpointProtocol :: bool
  suspended :: "(nat \<times> Suspended) list"
  queuedOnPausedThread :: nat
  nextRun :: nat
  trace :: "Action list"

text \<open>The constructor: no breakpoints set, none desired, no run.\<close>

definition newSourceAdapter :: "ISourceActorProxy \<Rightarrow> bool \<Rightarrow> SourceAdapter" where
  "newSourceAdapter a np =
     \<lparr> actor = a, currentBreakpoints = [], desiredBreakpoints = None,
       isSyncingBreakpoints = False, newBreakpointProtocol = np,
       suspended = [], queuedOnPausedThread = 0, nextRun = 0, trace = [] \<rparr>"

definition emit :: "Action list \<Rightarrow> SourceAdapter \<Rightarrow> SourceAdapter" where
  "emit as s = s\<lparr> trace := trace s @ as \<rparr>"

definition suspend :: "nat \<Rightarrow> Suspended \<Rightarrow> SourceAdapter \<Rightarrow> SourceAdapter" where
  "suspend r k s = s\<lparr> suspended := suspended s @ [(r, k)] \<rparr>"

definition settled :: "nat \<Rightarrow> SourceAdapter \<Rightarrow> SourceAdapter" where
  "settled r s = s\<lparr> suspended := filter (\<lambda>(r', _). r' \<noteq> r) (suspended s) \<rparr>"

text \<open>
  An exception inside the async function, or a rejected promise at an \<open>await\<close>: the run
  ends there. Nothing in syncBreakpoints catches it, so no later statement of the run is
  executed.
\<close>

definition rejectRun :: "nat \<Rightarrow> SourceAdapter \<Rightarrow> SourceAdapter" where
  "rejectRun r s = emit [SyncRejected r] (settled r s)"

subsection \<open>syncBreakpoints, from one await to the next\<close>

text \<open>
  The start of syncBreakpoints, up to \<open>await Promise.all(deletionPromises)\<close>. When no set
  is pending, \<open>desiredBreakpoints\<close> is undefined: \<open>desiredBreakpoints.some\<close> throws a
  TypeError in the first iteration of the loop over currentBreakpoints; with no current
  breakpoint the loop body is not reached and the run gets to the await.
\<close>

definition syncBreakpoints :: "SourceAdapter \<Rightarrow> SourceAdapter" where
  "syncBreakpoints s =
     (let r = nextRun s;
          desired = desiredBreakpoints s;
          s1 = emit [SyncStarted r desired]
                 (s\<lparr> isSyncingBreakpoints := True, desiredBreakpoints := None, nextRun := r + 1 \<rparr>)
      in case desired of
           None \<Rightarrow>
             (if currentBreakpoints s = [] then suspend r (AwaitDeletions None []) s1
              else emit [SyncRejected r] s1)
         | Some d \<Rightarrow>
             (let breakpointsToKeep =
                    filter (\<lambda>currentBreakpoint.
                        list_ex (\<lambda>requestedBreakpoint'.
                            isEquivalent requestedBreakpoint' (breakpointInfo currentBreakpoint)) d)
                      (currentBreakpoints s);
                  breakpointsToDelete =
                    filter (\<lambda>currentBreakpoint.
                        \<not> list_ex (\<lambda>requestedBreakpoint'.
                            isEquivalent requestedBreakpoint' (breakpointInfo currentBreakpoint)) d)
                      (currentBreakpoints s)
              in suspend r (AwaitDeletions (Some d) breakpointsToKeep)
                   (emit (map (DeleteCall r) breakpointsToDelete) s1)))"

definition checkAndSyncBreakpoints :: "SourceAdapter \<Rightarrow> SourceAdapter" where
  "checkAndSyncBreakpoints s =
     (if desiredBreakpoints s \<noteq> None \<and> \<not> isSyncingBreakpoints s then
        (if newBreakpointProtocol s then syncBreakpoints s
         else s\<lparr> queuedOnPausedThread := queuedOnPausedThread s + 1 \<rparr>)
      else s)"

definition updateBreakpoints :: "BreakpointInfo list \<Rightarrow> SourceAdapter \<Rightarrow> SourceAdapter" where
  "updateBreakpoints breakpoints s =
     checkAndSyncBreakpoints (s\<lparr> desiredBreakpoints := Some breakpoints \<rparr>)"

text \<open>The last three statements of syncBreakpoints.\<close>

definition finishSync ::
  "nat \<Rightarrow> BreakpointAdapter list \<Rightarrow> BreakpointAdapter list \<Rightarrow> SourceAdapter \<Rightarrow> SourceAdapter" where
  "finishSync r breakpointsToKeep addedBreakpoints s =
     checkAndSyncBreakpoints
       (emit [SyncFinished r]
          (settled r (s\<lparr> currentBreakpoints := breakpointsToKeep @ addedBreakpoints,
                         isSyncingBreakpoints := False \<rparr>)))"

text \<open>
  The log value of the new protocol: the log message with its first opening brace
  replaced by a dollar sign and a brace, between two backquotes (character 96).
\<close>

definition logValue :: "BreakpointInfo \<Rightarrow> string option" where
  "logValue b =
     (if truthyString (logMessage (requestedBreakpoint b)) then
        Some ([char_of (96::nat)]
              @ replaceFirst CHR ''{'' ''${'' (the (logMessage (requestedBreakpoint b)))
              @ [char_of (96::nat)])
      else None)"

text \<open>
  From the return of \<open>await Promise.all(deletionPromises)\<close> to the next await: the
  breakpoints to add are computed against \<open>this.currentBreakpoints\<close> as it is then; the
  new protocol asks for the breakpoint positions, the legacy protocol calls the source
  actor's \<open>setBreakpoint\<close> for every breakpoint to add. With \<open>desiredBreakpoints\<close>
  undefined, \<open>desiredBreakpoints.filter\<close> throws a TypeError.
\<close>

definition afterDeletions ::
  "nat \<Rightarrow> BreakpointInfo list option \<Rightarrow> BreakpointAdapter list \<Rightarrow> SourceAdapter \<Rightarrow> SourceAdapter" where
  "afterDeletions r desired breakpointsToKeep s =
     (let s1 = emit [DeletionsCompleted r] (settled r s)
      in case desired of
           None \<Rightarrow> emit [SyncRejected r] s1
         | Some d \<Rightarrow>
             (let breakpointsToAdd =
                    filter (\<lambda>desiredBreakpoint.
                        \<not> list_ex (\<lambda>currentBreakpoint.
                            isEquivalent desiredBreakpoint (breakpointInfo currentBreakpoint))
                          (currentBreakpoints s)) d
              in if newBreakpointProtocol s then
                   suspend r (AwaitBreakpointPositions breakpointsToKeep breakpointsToAdd)
                     (emit [GetBreakpointPositionsCall r] s1)
                 else
                   suspend r (AwaitAdditions breakpointsToKeep breakpointsToAdd)
                     (emit (map (\<lambda>b. SourceSetBreakpointCall r
                                        (line (requestedBreakpoint b))
                                        (column (requestedBreakpoint b))
                                        (condition (requestedBreakpoint b))) breakpointsToAdd) s1)))"

text \<open>
  New protocol, from the breakpoint positions to \<open>await Promise.all(additionPromises)\<close>:
  every callback of \<open>breakpointsToAdd.map\<close> runs up to its own await, so it stores the
  actual location in its BreakpointInfo and calls the thread actor's \<open>setBreakpoint\<close>.
  \<open>findNextBreakpointPosition\<close> (firefox/sourceMaps/info.ts) is not among the sources
  and is a parameter of the model.
\<close>

definition resolveActualLocation ::
  "(int \<Rightarrow> int \<Rightarrow> (int \<times> int) list \<Rightarrow> int \<times> int) \<Rightarrow> (int \<times> int) list
     \<Rightarrow> BreakpointInfo \<Rightarrow> BreakpointInfo" where
  "resolveActualLocation findNextBreakpointPosition breakpointPositions b =
     (let actual = findNextBreakpointPosition
                     (line (requestedBreakpoint b))
                     (case column (requestedBreakpoint b) of Some c \<Rightarrow> c | None \<Rightarrow> 0)
                     breakpointPositions
      in b\<lparr> actualLine := Some (fst actual), actualColumn := Some (snd actual) \<rparr>)"

definition afterBreakpointPositions ::
  "(int \<Rightarrow> int \<Rightarrow> (int \<times> int) list \<Rightarrow> int \<times> int) \<Rightarrow> nat \<Rightarrow> BreakpointAdapter list
     \<Rightarrow> BreakpointInfo list \<Rightarrow> (int \<times> int) list \<Rightarrow> SourceAdapter \<Rightarrow> SourceAdapter" where
  "afterBreakpointPositions findNextBreakpointPosition r breakpointsToKeep breakpointsToAdd
       breakpointPositions s =
     (let resolved = map (resolveActualLocation findNextBreakpointPosition breakpointPositions)
                       breakpointsToAdd
      in suspend r (AwaitAdditions breakpointsToKeep resolved)
           (emit (map (\<lambda>b. ThreadSetBreakpointCall r (actualLine b) (actualColumn b)
                              (actorUrl (actor s)) (condition (requestedBreakpoint b))
                              (logValue b)) resolved)
              (settled r s)))"

text \<open>
  Modelled from the spec: \<open>BreakpointsManager.verifyBreakpoint\<close> (the verification sink is
  not among the sources). Section 6 of the spec: a one-way notification
  \<open>verifyBreakpoint(descriptor, actualLine, actualColumn)\<close>; section 2: the results update
  the descriptor's actual position and feed the reporter. The model records the call and
  stores the reported position in the descriptor.
\<close>

definition verifyBreakpoint ::
  "nat \<Rightarrow> BreakpointInfo \<Rightarrow> int option \<Rightarrow> int option \<Rightarrow> Action \<times> BreakpointInfo" where
  "verifyBreakpoint r b l c =
     (VerifyBreakpointCall r b l c, b\<lparr> actualLine := l, actualColumn := c \<rparr>)"

text \<open>
  The callbacks of the two \<open>map\<close> calls that build \<open>addedBreakpoints\<close>: the call of the
  verification sink and the new adapter. The legacy callback takes the breakpoint to add
  with the result of its \<open>setBreakpoint\<close> (\<open>breakpointsToAdd[index]\<close> and
  \<open>setBreakpointResult\<close>).
\<close>

definition addedNewProtocol :: "nat \<Rightarrow> BreakpointInfo \<Rightarrow> Action \<times> BreakpointAdapter" where
  "addedNewProtocol r b =
     (let (a, b') = verifyBreakpoint r b (actualLine b) (actualColumn b)
      in (a, NewProtocolBreakpointAdapter b'))"

definition addedOldProtocol ::
  "nat \<Rightarrow> BreakpointInfo \<times> SetBreakpointResult \<Rightarrow> Action \<times> BreakpointAdapter" where
  "addedOldProtocol r p =
     (let desiredBreakpoint = fst p;
          setBreakpointResult = snd p;
          actualLine' = (case actualLocation setBreakpointResult of
                           Some loc \<Rightarrow> Some (fst loc)
                         | None \<Rightarrow> Some (line (requestedBreakpoint desiredBreakpoint)));
          actualColumn' = (case actualLocation setBreakpointResult of
                             Some loc \<Rightarrow> snd loc
                           | None \<Rightarrow> column (requestedBreakpoint desiredBreakpoint));
          (a, b') = verifyBreakpoint r desiredBreakpoint actualLine' actualColumn'
      in (a, OldProtocolBreakpointAdapter b' (breakpointActor setBreakpointResult)))"

definition afterAdditions ::
  "nat \<Rightarrow> BreakpointAdapter list \<Rightarrow> (Action \<times> BreakpointAdapter) list \<Rightarrow> SourceAdapter
     \<Rightarrow> SourceAdapter" where
  "afterAdditions r breakpointsToKeep added s =
     finishSync r breakpointsToKeep (map snd added) (emit (map fst added) s)"

subsection \<open>The event loop\<close>

text \<open>
  How the promise a run waits for is settled: rejected, or resolved with the value the
  \<open>await\<close> returns. \<open>Promise.all\<close> is rejected as soon as one of its promises is, and
  resolved with all results when all of them are resolved.
\<close>

datatype Outcome =
    Rejected
  | DeletionsResolved
  | PositionsResolved "(int \<times> int) list"
  | AdditionsResolved
  | SourceAdditionsResolved "SetBreakpointResult list"

text \<open>
  What can happen to the adapter: the debug session calls updateBreakpoints; the thread
  coordinator starts an action queued by \<open>runOnPausedThread\<close>; the promise that run r waits
  for is settled.
\<close>

datatype Event =
    UpdateBreakpoints "BreakpointInfo list"
  | RunOnPausedThread
  | Settle nat Outcome

fun resume ::
  "(int \<Rightarrow> int \<Rightarrow> (int \<times> int) list \<Rightarrow> int \<times> int) \<Rightarrow> nat \<Rightarrow> Suspended \<Rightarrow> Outcome
     \<Rightarrow> SourceAdapter \<Rightarrow> SourceAdapter option" where
  "resume f r k Rejected s = Some (rejectRun r s)"
| "resume f r (AwaitDeletions d keep) DeletionsResolved s = Some (afterDeletions r d keep s)"
| "resume f r (AwaitBreakpointPositions keep toAdd) (PositionsResolved ps) s =
     Some (afterBreakpointPositions f r keep toAdd ps s)"
| "resume f r (AwaitAdditions keep toAdd) AdditionsResolved s =
     (if newBreakpointProtocol s
      then Some (afterAdditions r keep (map (addedNewProtocol r) toAdd) s)
      else None)"
| "resume f r (AwaitAdditions keep toAdd) (SourceAdditionsResolved results) s =
     (if \<not> newBreakpointProtocol s \<and> length results = length toAdd
      then Some (afterAdditions r keep (map (addedOldProtocol r) (zip toAdd results)) s)
      else None)"
| "resume f r k out s = None"

text \<open>
  Modelled from the spec: \<open>ThreadCoordinator.runOnPausedThread\<close> is not among the sources.
  Section 4.3 of the spec: the actions queue and run one at a time while the thread is
  paused. So a queued action starts only when no run of syncBreakpoints waits (under the
  legacy protocol every run is such an action).
\<close>

definition canRunOnPausedThread :: "SourceAdapter \<Rightarrow> bool" where
  "canRunOnPausedThread s = (0 < queuedOnPausedThread s \<and> suspended s = [])"

text \<open>
  One event; None when the event cannot happen in the state (no such run waits, the
  outcome is not one of its await, no queued action can start).
\<close>

definition step ::
  "(int \<Rightarrow> int \<Rightarrow> (int \<times> int) list \<Rightarrow> int \<times> int) \<Rightarrow> Event \<Rightarrow> SourceAdapter
     \<Rightarrow> SourceAdapter option" where
  "step f e s =
     (case e of
        UpdateBreakpoints breakpoints \<Rightarrow> Some (updateBreakpoints breakpoints s)
      | RunOnPausedThread \<Rightarrow>
          (if canRunOnPausedThread s then
             Some (syncBreakpoints (s\<lparr> queuedOnPausedThread := queuedOnPausedThread s - 1 \<rparr>))
           else None)
      | Settle r out \<Rightarrow>
          (case map_of (suspended s) r of
             None \<Rightarrow> None
           | Some k \<Rightarrow> resume f r k out s))"

fun exec ::
  "(int \<Rightarrow> int \<Rightarrow> (int \<times> int) list \<Rightarrow> int \<times> int) \<Rightarrow> Event list \<Rightarrow> SourceAdapter
     \<Rightarrow> SourceAdapter option" where
  "exec f [] s = Some s"
| "exec f (e # es) s = (case step f e s of None \<Rightarrow> None | Some s' \<Rightarrow> exec f es s')"

section \<open>Notions used to state the properties\<close>

text \<open>What "both strings" means for harmonizeTrailingSlashes, and the two trailing slashes.\<close>

definition bothStrings :: "PathMapping \<Rightarrow> bool" where
  "bothStrings m = (case (url m, path m) of (UrlString _, Some _) \<Rightarrow> True | _ \<Rightarrow> False)"

definition urlEndsWithSlash :: "PathMapping \<Rightarrow> bool" where
  "urlEndsWithSlash m = (case url m of UrlString u \<Rightarrow> endsWith u CHR ''/'' | UrlRegExp _ \<Rightarrow> False)"

definition pathEndsWithSlash :: "PathMapping \<Rightarrow> bool" where
  "pathEndsWithSlash m = (case path m of Some p \<Rightarrow> endsWith p CHR ''/'' | None \<Rightarrow> False)"

text \<open>The digits at the end of a string.\<close>

definition trailingDigits :: "string \<Rightarrow> string" where
  "trailingDigits s = rev (takeWhile isDigit (rev s))"

text \<open>
  The label of a source without URL, \<open>actor.source.introductionType || 'Script'\<close>.
\<close>

definition introductionLabel :: "ISourceActorProxy \<Rightarrow> string" where
  "introductionLabel a =
     (case introductionType a of None \<Rightarrow> ''Script'' | Some t \<Rightarrow> (if t = [] then ''Script'' else t))"

text \<open>
  The display name as the spec words it: the last path segment of the URL with the query
  string stripped or, with no URL, the label combined with the trailing digits of the
  actor's name.
\<close>

definition specDisplayName :: "ISourceActorProxy \<Rightarrow> string" where
  "specDisplayName a =
     (case actorUrl a of
        Some u \<Rightarrow> takeWhile (\<lambda>c. c \<noteq> CHR ''?'') (rev (takeWhile (\<lambda>c. c \<noteq> CHR ''/'') (rev u)))
      | None \<Rightarrow> introductionLabel a @ '' '' @ trailingDigits (actorName a))"

definition exampleActor :: "string option \<Rightarrow> string \<Rightarrow> ISourceActorProxy" where
  "exampleActor u n = \<lparr> actorUrl = u, actorName = n, introductionType = None, isBlackBoxed = False \<rparr>"

text \<open>An environment and a launch configuration that parseConfiguration accepts.\<close>

definition exampleEnv :: Env where
  "exampleEnv =
     \<lparr> isExecutable = (\<lambda>p. p = ''/usr/bin/firefox''),
       platform = ''linux'',
       envPATH = ''/usr/local/bin:/usr/bin'',
       isWindowsPlatform = False,
       pathIsAbsolute = (\<lambda>p. take 1 p = ''/''),
       pathJoin = (\<lambda>a b. a @ ''/'' @ b),
       tmpdir = ''/tmp'',
       uuidV4 = ''0000'',
       finderGetPath = (\<lambda>n. if n = ''dev'' then Inr ''/home/u/.mozilla/firefox/dev'' else Inl ''no such profile''),
       findAddonId = (\<lambda>p. Inr None),
       normalizePath = (\<lambda>p. p),
       isAbsoluteUrl = (\<lambda>u. take 7 u = ''http://''),
       minimatchMakeRe = (\<lambda>g. Some g),
       numberToString = (\<lambda>n. if n = 6000 then ''6000'' else ''0''),
       regExpAccepts = (\<lambda>p. CHR ''['' \<notin> set p) \<rparr>"

definition exampleLaunch :: Configuration where
  "exampleLaunch =
     \<lparr> request = Launch, configFile = None, firefoxExecutable = None, profileDir = None,
       profile = None, keepProfileChanges = None, preferences = None, port = None,
       firefoxArgs = None, timeout = None, reAttach = None, host = None,
       configUrl = Some ''http://localhost/index.html'', webRoot = Some ''/srv/www'',
       reloadOnAttach = None, reloadOnChange = None, clearConsoleOnReload = None,
       pathMappings = None, skipFiles = None, showConsoleCallLocation = None,
       addonPath = None, popupAutohideButton = None, sourceMaps = None,
       liftAccessorsFromPrototypes = None \<rparr>"

text \<open>
  The run an action belongs to, and how far into syncBreakpoints the action and each await
  are: the statements of one run follow each other in this order.
\<close>

fun runOf :: "Action \<Rightarrow> nat" where
  "runOf (SyncStarted r _) = r"
| "runOf (DeleteCall r _) = r"
| "runOf (DeletionsCompleted r) = r"
| "runOf (GetBreakpointPositionsCall r) = r"
| "runOf (ThreadSetBreakpointCall r _ _ _ _ _) = r"
| "runOf (SourceSetBreakpointCall r _ _ _) = r"
| "runOf (VerifyBreakpointCall r _ _ _) = r"
| "runOf (SyncFinished r) = r"
| "runOf (SyncRejected r) = r"

fun stage :: "Action \<Rightarrow> nat" where
  "stage (SyncStarted _ _) = 0"
| "stage (DeleteCall _ _) = 1"
| "stage (DeletionsCompleted _) = 2"
| "stage (GetBreakpointPositionsCall _) = 3"
| "stage (ThreadSetBreakpointCall _ _ _ _ _ _) = 4"
| "stage (SourceSetBreakpointCall _ _ _ _) = 4"
| "stage (VerifyBreakpointCall _ _ _ _) = 5"
| "stage (SyncFinished _) = 6"
| "stage (SyncRejected _) = 7"

fun awaitStage :: "Suspended \<Rightarrow> nat" where
  "awaitStage (AwaitDeletions _ _) = 1"
| "awaitStage (AwaitBreakpointPositions _ _) = 3"
| "awaitStage (AwaitAdditions _ _) = 4"

definition runTrace :: "nat \<Rightarrow> Action list \<Rightarrow> Action list" where
  "runTrace r tr = filter (\<lambda>a. runOf a = r) tr"

definition isDeleteCall :: "nat \<Rightarrow> Action \<Rightarrow> bool" where
  "isDeleteCall r a = (case a of DeleteCall r' _ \<Rightarrow> r' = r | _ \<Rightarrow> False)"

definition isAddCall :: "nat \<Rightarrow> Action \<Rightarrow> bool" where
  "isAddCall r a =
     (case a of
        ThreadSetBreakpointCall r' _ _ _ _ _ \<Rightarrow> r' = r
      | SourceSetBreakpointCall r' _ _ _ \<Rightarrow> r' = r
      | _ \<Rightarrow> False)"

definition traceInv :: "SourceAdapter \<Rightarrow> bool" where
  "traceInv s =
     ((\<forall>a\<in>set (trace s). runOf a < nextRun s)
      \<and> (\<forall>(r, k)\<in>set (suspended s). r < nextRun s
            \<and> (\<forall>a\<in>set (runTrace r (trace s)). stage a \<le> awaitStage k)
            \<and> (3 \<le> awaitStage k \<longrightarrow> DeletionsCompleted r \<in> set (trace s)))
      \<and> (\<forall>r. sorted (map stage (runTrace r (trace s))))
      \<and> (\<forall>a\<in>set (trace s). stage a = 4 \<longrightarrow> DeletionsCompleted (runOf a) \<in> set (trace s)))"

definition inv1 :: "SourceAdapter \<Rightarrow> bool" where
  "inv1 s = (length (suspended s) \<le> 1 \<and> (suspended s \<noteq> [] \<longrightarrow> isSyncingBreakpoints s))"

definition inv :: "SourceAdapter \<Rightarrow> bool" where
  "inv s = (inv1 s \<and> traceInv s)"

text \<open>Examples: a breakpoint request, an installed breakpoint, a position lookup, an adapter.\<close>

definition exampleBreakpoint :: "int \<Rightarrow> string option \<Rightarrow> BreakpointInfo" where
  "exampleBreakpoint l c =
     \<lparr> requestedBreakpoint = \<lparr> line = l, column = None, condition = c, logMessage = None \<rparr>,
       actualLine = None, actualColumn = None \<rparr>"

definition exampleInstalled :: "int \<Rightarrow> string option \<Rightarrow> BreakpointAdapter" where
  "exampleInstalled l c =
     NewProtocolBreakpointAdapter ((exampleBreakpoint l c)\<lparr> actualLine := Some l, actualColumn := Some 0 \<rparr>)"

definition exampleFindNext :: "int \<Rightarrow> int \<Rightarrow> (int \<times> int) list \<Rightarrow> int \<times> int" where
  "exampleFindNext l c ps = (l, c)"

definition exampleAdapter :: "bool \<Rightarrow> SourceAdapter" where
  "exampleAdapter np = newSourceAdapter (exampleActor (Some ''http://localhost/js/app.js'') ''server1.conn0.source27'') np"

definition exampleLegacy :: SourceAdapter where
  "exampleLegacy =
     (exampleAdapter False)
       \<lparr> isSyncingBreakpoints := True,
         suspended := [(0, AwaitAdditions [] [exampleBreakpoint 5 None, exampleBreakpoint 7 None])],
         nextRun := 1 \<rparr>"


text \<open>
  The installed set and a desired set agree: every installed breakpoint has an equivalent
  desired one and every desired breakpoint an equivalent installed one.
\<close>

definition inSync :: "BreakpointAdapter list \<Rightarrow> BreakpointInfo list \<Rightarrow> bool" where
  "inSync current desired =
     (list_all (\<lambda>c. list_ex (\<lambda>d. isEquivalent d (breakpointInfo c)) desired) current
      \<and> list_all (\<lambda>d. list_ex (\<lambda>c. isEquivalent d (breakpointInfo c)) current) desired)"

text \<open>Nothing to do: no run is in flight or queued, no set is pending, the flag is clear.\<close>

definition idle :: "SourceAdapter \<Rightarrow> bool" where
  "idle s = (suspended s = [] \<and> \<not> isSyncingBreakpoints s \<and> desiredBreakpoints s = None
             \<and> queuedOnPausedThread s = 0)"

text \<open>The events that submit a desired set.\<close>

fun isUpdate :: "Event \<Rightarrow> bool" where
  "isUpdate (UpdateBreakpoints _) = True"
| "isUpdate _ = False"

text \<open>The actions that change the breakpoints in the runtime: deletions and additions.\<close>

fun isRemoteChange :: "Action \<Rightarrow> bool" where
  "isRemoteChange (DeleteCall _ _) = True"
| "isRemoteChange (ThreadSetBreakpointCall _ _ _ _ _ _) = True"
| "isRemoteChange (SourceSetBreakpointCall _ _ _ _) = True"
| "isRemoteChange _ = False"

text \<open>The pending sets that the runs have captured when they started, in the order of the runs.\<close>

fun observed :: "Action list \<Rightarrow> BreakpointInfo list option list" where
  "observed [] = []"
| "observed (SyncStarted r d # as) = d # observed as"
| "observed (a # as) = observed as"

text \<open>
  A waiting run that reconciles the desired set D against the installed set: its kept
  breakpoints are the installed ones with an equivalent in D, and the breakpoints it adds
  are, by their requests, the ones of D without an equivalent installed.
\<close>

fun runFor :: "BreakpointInfo list \<Rightarrow> BreakpointAdapter list \<Rightarrow> Suspended \<Rightarrow> bool" where
  "runFor D cur (AwaitDeletions d keep) =
     (d = Some D \<and> keep = filter (\<lambda>c. list_ex (\<lambda>q. isEquivalent q (breakpointInfo c)) D) cur)"
| "runFor D cur (AwaitBreakpointPositions keep toAdd) =
     (keep = filter (\<lambda>c. list_ex (\<lambda>q. isEquivalent q (breakpointInfo c)) D) cur
      \<and> map requestedBreakpoint toAdd
          = map requestedBreakpoint
              (filter (\<lambda>d. \<not> list_ex (\<lambda>c. isEquivalent d (breakpointInfo c)) cur) D))"
| "runFor D cur (AwaitAdditions keep toAdd) =
     (keep = filter (\<lambda>c. list_ex (\<lambda>q. isEquivalent q (breakpointInfo c)) D) cur
      \<and> map requestedBreakpoint toAdd
          = map requestedBreakpoint
              (filter (\<lambda>d. \<not> list_ex (\<lambda>c. isEquivalent d (breakpointInfo c)) cur) D))"

text \<open>
  The adapter is reconciling D and nothing else, with q actions queued behind: the run is
  queued (legacy protocol), or it waits at an await, or it has finished with the installed
  set in agreement with D, or it has ended by a rejection.
\<close>

definition applying :: "BreakpointInfo list \<Rightarrow> nat \<Rightarrow> SourceAdapter \<Rightarrow> bool" where
  "applying D q s =
     ((suspended s = [] \<and> \<not> isSyncingBreakpoints s \<and> desiredBreakpoints s = Some D
         \<and> queuedOnPausedThread s = Suc q \<and> \<not> newBreakpointProtocol s)
      \<or> (isSyncingBreakpoints s \<and> desiredBreakpoints s = None \<and> queuedOnPausedThread s = q
          \<and> (\<exists>r k. suspended s = [(r, k)] \<and> runFor D (currentBreakpoints s) k))
      \<or> (suspended s = [] \<and> \<not> isSyncingBreakpoints s \<and> desiredBreakpoints s = None
          \<and> queuedOnPausedThread s = q \<and> inSync (currentBreakpoints s) D)
      \<or> (suspended s = [] \<and> isSyncingBreakpoints s \<and> desiredBreakpoints s = None
          \<and> queuedOnPausedThread s = q))"

text \<open>
  The adapter is reconciling D, which the installed set agrees with already; the changes
  made in the runtime and the installed set are the given ones.
\<close>

definition quiet ::
  "BreakpointInfo list \<Rightarrow> Action list \<times> BreakpointAdapter list \<Rightarrow> SourceAdapter \<Rightarrow> bool" where
  "quiet D ops s = (applying D 0 s \<and> inSync (currentBreakpoints s) D
                    \<and> filter isRemoteChange (trace s) = fst ops
                    \<and> currentBreakpoints s = snd ops)"





text \<open>A new-protocol adapter that has installed the given breakpoints.\<close>

definition exampleSynced :: "BreakpointInfo list \<Rightarrow> nat \<Rightarrow> Action list \<Rightarrow> SourceAdapter" where
  "exampleSynced bs n tr =
     (exampleAdapter True)
       \<lparr> currentBreakpoints :=
           map (\<lambda>b. NewProtocolBreakpointAdapter
                  (b\<lparr> actualLine := Some (line (requestedBreakpoint b)), actualColumn := Some 0 \<rparr>)) bs,
         nextRun := n, trace := tr \<rparr>"

text \<open>
  The equivalence keys of the installed breakpoints: the requests (line, column, condition,
  log message) they were installed for, in the order of the installed set.
\<close>

definition installedKeys :: "BreakpointAdapter list \<Rightarrow> SourceBreakpoint list" where
  "installedKeys cur = map (\<lambda>c. requestedBreakpoint (breakpointInfo c)) cur"

text \<open>A submission whose desired set names no request twice (every other event passes).\<close>

fun distinctRequests :: "Event \<Rightarrow> bool" where
  "distinctRequests (UpdateBreakpoints bps) = distinct (map requestedBreakpoint bps)"
| "distinctRequests _ = True"

text \<open>
  What a waiting run holds about the keys: before the deletions have completed, a desired
  set without a repeated request and the installed breakpoints it keeps; afterwards, kept
  and to-add breakpoints whose requests are pairwise different.
\<close>

fun runKeys :: "BreakpointAdapter list \<Rightarrow> Suspended \<Rightarrow> bool" where
  "runKeys cur (AwaitDeletions d keep) =
     (case d of
        None \<Rightarrow> keep = []
      | Some D \<Rightarrow> distinct (map requestedBreakpoint D)
          \<and> keep = filter (\<lambda>c. list_ex (\<lambda>q. isEquivalent q (breakpointInfo c)) D) cur)"
| "runKeys cur (AwaitBreakpointPositions keep toAdd) =
     distinct (installedKeys keep @ map requestedBreakpoint toAdd)"
| "runKeys cur (AwaitAdditions keep toAdd) =
     distinct (installedKeys keep @ map requestedBreakpoint toAdd)"

text \<open>
  No request is installed twice, no pending set names a request twice, and the waiting run
  will not install one twice either.
\<close>

definition keysInv :: "SourceAdapter \<Rightarrow> bool" where
  "keysInv s =
     (inv1 s \<and> distinct (installedKeys (currentBreakpoints s))
      \<and> (\<forall>D. desiredBreakpoints s = Some D \<longrightarrow> distinct (map requestedBreakpoint D))
      \<and> (\<forall>(r, k)\<in>set (suspended s). runKeys (currentBreakpoints s) k))"

text \<open>
  The installed breakpoints whose request is not a request of D, and the breakpoints of D
  whose request is not installed.
\<close>

definition staleInstalled :: "BreakpointInfo list \<Rightarrow> BreakpointAdapter list \<Rightarrow> BreakpointAdapter list" where
  "staleInstalled D cur =
     filter (\<lambda>c. \<not> list_ex (\<lambda>d. requestedBreakpoint d = requestedBreakpoint (breakpointInfo c)) D) cur"

definition missingDesired :: "BreakpointInfo list \<Rightarrow> BreakpointAdapter list \<Rightarrow> BreakpointInfo list" where
  "missingDesired D cur =
     filter (\<lambda>d. \<not> list_ex (\<lambda>c. requestedBreakpoint d = requestedBreakpoint (breakpointInfo c)) cur) D"

text \<open>
  Submit D and let the run r proceed until it has issued its additions: under the new
  protocol the deletions and the breakpoint positions resolve, under the legacy protocol
  the queued action starts and the deletions resolve.
\<close>

definition startRun :: "bool \<Rightarrow> BreakpointInfo list \<Rightarrow> nat \<Rightarrow> (int \<times> int) list \<Rightarrow> Event list" where
  "startRun np D r ps =
     (if np then [UpdateBreakpoints D, Settle r DeletionsResolved, Settle r (PositionsResolved ps)]
      else [UpdateBreakpoints D, RunOnPausedThread, Settle r DeletionsResolved])"

text \<open>What a run issues after its deletions have completed, for the breakpoints it adds.\<close>

definition addCalls ::
  "(int \<Rightarrow> int \<Rightarrow> (int \<times> int) list \<Rightarrow> int \<times> int) \<Rightarrow> SourceAdapter \<Rightarrow> nat \<Rightarrow> (int \<times> int) list
     \<Rightarrow> BreakpointInfo list \<Rightarrow> Action list" where
  "addCalls f s r ps toAdd =
     (if newBreakpointProtocol s then
        GetBreakpointPositionsCall r #
        map (\<lambda>b. ThreadSetBreakpointCall r (actualLine b) (actualColumn b) (actorUrl (actor s))
                   (condition (requestedBreakpoint b)) (logValue b))
          (map (resolveActualLocation f ps) toAdd)
      else
        map (\<lambda>b. SourceSetBreakpointCall r (line (requestedBreakpoint b))
                   (column (requestedBreakpoint b)) (condition (requestedBreakpoint b))) toAdd)"

section \<open>Properties of the configuration parser\<close>

lemma endsWith_append_slash: "endsWith (s @ ''/'') CHR ''/''"
  by (simp add: endsWith_def)

text \<open>
  C10. harmonizeTrailingSlashes makes the trailing slashes of url and path agree when both
  are strings (the result's url ends with a slash exactly when its path does), keeps every
  trailing slash of its input, returns a mapping with a RegExp url or a null path
  unchanged, and is idempotent.
\<close>

theorem harmonizeTrailingSlashes_normalizes:
  "(bothStrings m \<longrightarrow>
      (urlEndsWithSlash (harmonizeTrailingSlashes m) = pathEndsWithSlash (harmonizeTrailingSlashes m)))
   \<and> (urlEndsWithSlash m \<longrightarrow> urlEndsWithSlash (harmonizeTrailingSlashes m))
   \<and> (pathEndsWithSlash m \<longrightarrow> pathEndsWithSlash (harmonizeTrailingSlashes m))
   \<and> (\<not> bothStrings m \<longrightarrow> harmonizeTrailingSlashes m = m)
   \<and> harmonizeTrailingSlashes (harmonizeTrailingSlashes m) = harmonizeTrailingSlashes m"
  by (cases "url m"; cases "path m")
     (simp_all add: harmonizeTrailingSlashes_def bothStrings_def urlEndsWithSlash_def
        pathEndsWithSlash_def endsWith_append_slash)

theorem harmonizeTrailingSlashes_normalizes_witness:
  "bothStrings \<lparr> url = UrlString ''http://localhost/app'', path = Some ''/srv/app/'' \<rparr>
   \<and> harmonizeTrailingSlashes \<lparr> url = UrlString ''http://localhost/app'', path = Some ''/srv/app/'' \<rparr>
       = \<lparr> url = UrlString ''http://localhost/app/'', path = Some ''/srv/app/'' \<rparr>
   \<and> urlEndsWithSlash (harmonizeTrailingSlashes
         \<lparr> url = UrlString ''http://localhost/app'', path = Some ''/srv/app/'' \<rparr>)
   \<and> pathEndsWithSlash \<lparr> url = UrlString ''http://localhost/app'', path = Some ''/srv/app/'' \<rparr>
   \<and> \<not> bothStrings \<lparr> url = UrlRegExp ''^x$'', path = Some ''/srv'' \<rparr>
   \<and> harmonizeTrailingSlashes \<lparr> url = UrlRegExp ''^x$'', path = Some ''/srv'' \<rparr>
       = \<lparr> url = UrlRegExp ''^x$'', path = Some ''/srv'' \<rparr>"
  using harmonizeTrailingSlashes_normalizes
    [of "\<lparr> url = UrlString ''http://localhost/app'', path = Some ''/srv/app/'' \<rparr>"]
    harmonizeTrailingSlashes_normalizes [of "\<lparr> url = UrlRegExp ''^x$'', path = Some ''/srv'' \<rparr>"]
  by (simp add: harmonizeTrailingSlashes_def bothStrings_def urlEndsWithSlash_def
        pathEndsWithSlash_def endsWith_def)


lemma parseProfile_both:
  "truthyString (profile config) \<Longrightarrow> truthyString (profileDir config)
   \<Longrightarrow> parseProfileConfiguration env config t = Inl ProfileAndProfileDir"
  by (simp add: parseProfileConfiguration_def)

lemma parseProfile_keep:
  "truthyBool (keepProfileChanges config) \<Longrightarrow> \<not> truthyString (profile config)
   \<Longrightarrow> \<not> truthyString (profileDir config)
   \<Longrightarrow> parseProfileConfiguration env config t = Inl KeepProfileChangesWithoutProfile"
  by (simp add: parseProfileConfiguration_def truthyString_def)

lemma parseLaunch_profile_error:
  "parseProfileConfiguration env config [] = Inl e \<Longrightarrow> isl (parseLaunch env config p)"
  by (simp add: parseLaunch_def Let_def split: sum.splits)

lemma parseLaunch_no_target:
  "\<not> truthyString (configFile config) \<Longrightarrow> \<not> truthyString (configUrl config)
   \<Longrightarrow> \<not> truthyString (addonPath config) \<Longrightarrow> isl (parseLaunch env config p)"
  by (simp add: parseLaunch_def Let_def split: sum.splits prod.splits)

lemma parseConfiguration_launch_error:
  "request config = Launch \<Longrightarrow> isl (parseLaunch env config
     (case port config of Some p \<Rightarrow> (if p = 0 then 6000 else p) | None \<Rightarrow> 6000))
   \<Longrightarrow> isl (parseConfiguration env config)"
  by (auto simp add: parseConfiguration_def Let_def isl_def split: sum.splits)

lemma parseLaunch_exe_profile_both:
  "findFirefoxExecutable env (firefoxExecutable config) = Inr exe
   \<Longrightarrow> truthyString (profile config) \<Longrightarrow> truthyString (profileDir config)
   \<Longrightarrow> parseLaunch env config p = Inl ProfileAndProfileDir"
  by (simp add: parseLaunch_def Let_def parseProfile_both)

lemma parseLaunch_exe_profile_keep:
  "findFirefoxExecutable env (firefoxExecutable config) = Inr exe
   \<Longrightarrow> truthyBool (keepProfileChanges config) \<Longrightarrow> \<not> truthyString (profile config)
   \<Longrightarrow> \<not> truthyString (profileDir config)
   \<Longrightarrow> parseLaunch env config p = Inl KeepProfileChangesWithoutProfile"
  by (simp add: parseLaunch_def Let_def parseProfile_keep)

lemma parseLaunch_exe_no_target:
  "findFirefoxExecutable env (firefoxExecutable config) = Inr exe
   \<Longrightarrow> parseProfileConfiguration env config [] = Inr pr
   \<Longrightarrow> \<not> truthyString (configFile config) \<Longrightarrow> \<not> truthyString (configUrl config)
   \<Longrightarrow> \<not> truthyString (addonPath config)
   \<Longrightarrow> parseLaunch env config p = Inl NeitherFileNorUrl"
  by (simp add: parseLaunch_def Let_def split: prod.splits)

lemma parseLaunch_isl_cases:
  "isl (findFirefoxExecutable env (firefoxExecutable config)) \<Longrightarrow> isl (parseLaunch env config p)"
  by (auto simp: parseLaunch_def Let_def isl_def)

lemma parseConfiguration_launch:
  "request config = Launch \<Longrightarrow>
   parseLaunch env config (case port config of Some p \<Rightarrow> (if p = 0 then 6000 else p) | None \<Rightarrow> 6000) = Inl e
   \<Longrightarrow> parseConfiguration env config = Inl e"
  by (simp add: parseConfiguration_def Let_def)

text \<open>
  C9. For a launch configuration (the profile options exist on launch configurations only),
  parseConfiguration rejects instead of returning a parsed configuration when "profile" and
  "profileDir" are both set, when "keepProfileChanges" is set and neither of them is, and
  when none of "file", "url" and "addonPath" is set; "set" is what the source tests, the
  truthiness of the property. The rejection is the message for that conflict whenever the
  steps before it succeed (the Firefox executable is found and, in the third case, the
  profile options are consistent); otherwise the earlier step has rejected already.
\<close>

theorem parseConfiguration_rejects:
  assumes "request config = Launch"
  shows "(truthyString (profile config) \<and> truthyString (profileDir config) \<longrightarrow>
            isl (parseConfiguration env config)
            \<and> (\<forall>exe. findFirefoxExecutable env (firefoxExecutable config) = Inr exe \<longrightarrow>
                 parseConfiguration env config = Inl ProfileAndProfileDir))
       \<and> (truthyBool (keepProfileChanges config) \<and> \<not> truthyString (profile config)
            \<and> \<not> truthyString (profileDir config) \<longrightarrow>
            isl (parseConfiguration env config)
            \<and> (\<forall>exe. findFirefoxExecutable env (firefoxExecutable config) = Inr exe \<longrightarrow>
                 parseConfiguration env config = Inl KeepProfileChangesWithoutProfile))
       \<and> (\<not> truthyString (configFile config) \<and> \<not> truthyString (configUrl config)
            \<and> \<not> truthyString (addonPath config) \<longrightarrow>
            isl (parseConfiguration env config)
            \<and> (\<forall>exe pr. findFirefoxExecutable env (firefoxExecutable config) = Inr exe
                 \<and> parseProfileConfiguration env config [] = Inr pr \<longrightarrow>
                 parseConfiguration env config = Inl NeitherFileNorUrl))"
proof -
  let ?p = "case port config of Some p \<Rightarrow> (if p = 0 then 6000 else p) | None \<Rightarrow> 6000"
  have rej: "isl (parseLaunch env config ?p) \<Longrightarrow> isl (parseConfiguration env config)"
    using assms by (rule parseConfiguration_launch_error)
  have a: "isl (parseConfiguration env config)"
    if "truthyString (profile config)" "truthyString (profileDir config)"
    using that rej parseLaunch_profile_error [OF parseProfile_both] by blast
  have b: "isl (parseConfiguration env config)"
    if "truthyBool (keepProfileChanges config)" "\<not> truthyString (profile config)"
       "\<not> truthyString (profileDir config)"
    using that rej parseLaunch_profile_error [OF parseProfile_keep] by blast
  have c: "isl (parseConfiguration env config)"
    if "\<not> truthyString (configFile config)" "\<not> truthyString (configUrl config)"
       "\<not> truthyString (addonPath config)"
    using that rej parseLaunch_no_target by blast
  have a': "parseConfiguration env config = Inl ProfileAndProfileDir"
    if "truthyString (profile config)" "truthyString (profileDir config)"
       "findFirefoxExecutable env (firefoxExecutable config) = Inr exe" for exe
    using that parseConfiguration_launch [OF assms] parseLaunch_exe_profile_both by blast
  have b': "parseConfiguration env config = Inl KeepProfileChangesWithoutProfile"
    if "truthyBool (keepProfileChanges config)" "\<not> truthyString (profile config)"
       "\<not> truthyString (profileDir config)"
       "findFirefoxExecutable env (firefoxExecutable config) = Inr exe" for exe
    using that parseConfiguration_launch [OF assms] parseLaunch_exe_profile_keep by blast
  have c': "parseConfiguration env config = Inl NeitherFileNorUrl"
    if "\<not> truthyString (configFile config)" "\<not> truthyString (configUrl config)"
       "\<not> truthyString (addonPath config)"
       "findFirefoxExecutable env (firefoxExecutable config) = Inr exe"
       "parseProfileConfiguration env config [] = Inr pr" for exe pr
    using that parseConfiguration_launch [OF assms] parseLaunch_exe_no_target by blast
  show ?thesis
    apply (intro conjI impI allI)
    subgoal using a by blast
    subgoal using a' by blast
    subgoal using b by blast
    subgoal using b' by blast
    subgoal using c by blast
    subgoal using c' by blast
    done
qed


lemma example_exe: "findFirefoxExecutable exampleEnv None = Inr ''/usr/bin/firefox''"
  by (simp add: findFirefoxExecutable_def exampleEnv_def truthyString_def Let_def)

lemma example_profile:
  "profileDir c = None \<Longrightarrow> profile c = None \<Longrightarrow> keepProfileChanges c = None \<Longrightarrow>
   parseProfileConfiguration exampleEnv c []
     = Inr (''/tmp/vscode-firefox-debug-profile-0000'', None, [''/tmp/vscode-firefox-debug-profile-0000''])"
  by (simp add: parseProfileConfiguration_def exampleEnv_def truthyString_def truthyBool_def Let_def)

lemma example_launch: "\<not> isl (parseLaunch exampleEnv exampleLaunch 6000)"
  unfolding parseLaunch_def Let_def
  by (simp add: example_exe example_profile exampleLaunch_def truthyString_def)

lemma example_accepted: "\<not> isl (parseConfiguration exampleEnv exampleLaunch)"
proof -
  obtain a l where al: "parseLaunch exampleEnv exampleLaunch 6000 = Inr (a, l)"
    using example_launch by (cases "parseLaunch exampleEnv exampleLaunch 6000") auto
  have w: "parseWebRootConfiguration exampleEnv exampleLaunch []
           = Inr (Some ''/srv/www'', [\<lparr> url = UrlString ''http://localhost'', path = Some ''/srv/www'' \<rparr>])"
    by (simp add: parseWebRootConfiguration_def exampleEnv_def exampleLaunch_def truthyString_def
        lastIndexOf_def Let_def)
  have p: "port exampleLaunch = None" "request exampleLaunch = Launch"
    "pathMappings exampleLaunch = None" "addonPath exampleLaunch = None"
    by (simp_all add: exampleLaunch_def)
  show ?thesis
    unfolding parseConfiguration_def Let_def
    by (simp add: p al w truthyString_def)
qed

theorem parseConfiguration_rejects_witness:
  "request exampleLaunch = Launch
   \<and> parseConfiguration exampleEnv (exampleLaunch\<lparr> profile := Some ''dev'', profileDir := Some ''/p'' \<rparr>)
       = Inl ProfileAndProfileDir
   \<and> parseConfiguration exampleEnv (exampleLaunch\<lparr> keepProfileChanges := Some True \<rparr>)
       = Inl KeepProfileChangesWithoutProfile
   \<and> parseConfiguration exampleEnv (exampleLaunch\<lparr> configUrl := None, webRoot := None \<rparr>)
       = Inl NeitherFileNorUrl
   \<and> \<not> isl (parseConfiguration exampleEnv exampleLaunch)"
proof -
  have l1: "request (exampleLaunch\<lparr> profile := Some ''dev'', profileDir := Some ''/p'' \<rparr>) = Launch"
    by (simp add: exampleLaunch_def)
  have l2: "request (exampleLaunch\<lparr> keepProfileChanges := Some True \<rparr>) = Launch"
    by (simp add: exampleLaunch_def)
  have l3: "request (exampleLaunch\<lparr> configUrl := None, webRoot := None \<rparr>) = Launch"
    by (simp add: exampleLaunch_def)
  have f: "firefoxExecutable exampleLaunch = None" by (simp add: exampleLaunch_def)
  have pr: "parseProfileConfiguration exampleEnv (exampleLaunch\<lparr> configUrl := None, webRoot := None \<rparr>) []
            = Inr (''/tmp/vscode-firefox-debug-profile-0000'', None, [''/tmp/vscode-firefox-debug-profile-0000''])"
    by (rule example_profile) (simp_all add: exampleLaunch_def)
  have c1: "parseConfiguration exampleEnv (exampleLaunch\<lparr> profile := Some ''dev'', profileDir := Some ''/p'' \<rparr>)
       = Inl ProfileAndProfileDir"
    using parseConfiguration_rejects [OF l1, of exampleEnv] example_exe f
    by (simp add: truthyString_def)
  have c2: "parseConfiguration exampleEnv (exampleLaunch\<lparr> keepProfileChanges := Some True \<rparr>)
       = Inl KeepProfileChangesWithoutProfile"
    using parseConfiguration_rejects [OF l2, of exampleEnv] example_exe f
    by (simp add: truthyString_def truthyBool_def exampleLaunch_def)
  have c3: "parseConfiguration exampleEnv (exampleLaunch\<lparr> configUrl := None, webRoot := None \<rparr>)
       = Inl NeitherFileNorUrl"
    using parseConfiguration_rejects [OF l3, of exampleEnv] example_exe f pr
    by (simp add: truthyString_def exampleLaunch_def)
  show ?thesis using c1 c2 c3 example_accepted l1 by simp
qed

section \<open>Properties of createSource\<close>

lemma split_not_Nil: "split c s \<noteq> []"
  by (induction s) (auto split: list.splits)

lemma hd_split: "hd (split c s) = takeWhile (\<lambda>x. x \<noteq> c) s"
  by (induction s) (auto split: list.splits simp: split_not_Nil)

lemma split_no_sep: "c \<notin> set s \<Longrightarrow> split c s = [s]"
  by (induction s) auto

lemma split_with_sep: "c \<in> set s \<Longrightarrow> \<exists>w v vs. split c s = w # v # vs"
proof (induction s)
  case Nil
  then show ?case by simp
next
  case (Cons x xs)
  show ?case
  proof (cases "x = c")
    case True
    then show ?thesis using split_not_Nil [of c xs] by (cases "split c xs") auto
  next
    case False
    then have "c \<in> set xs" using Cons.prems by simp
    then obtain w v vs where "split c xs = w # v # vs" using Cons.IH by blast
    then show ?thesis using False by simp
  qed
qed

lemma takeWhile_snoc:
  "takeWhile P (xs @ [x]) = (if (\<forall>y\<in>set xs. P y) \<and> P x then xs @ [x] else takeWhile P xs)"
  by (induction xs) auto

lemma last_split: "last (split c s) = rev (takeWhile (\<lambda>x. x \<noteq> c) (rev s))"
proof (induction s)
  case Nil
  then show ?case by simp
next
  case (Cons x xs)
  show ?case
  proof (cases "x = c")
    case True
    then show ?thesis using Cons by (simp add: split_not_Nil takeWhile_snoc)
  next
    case False
    show ?thesis
    proof (cases "c \<in> set xs")
      case True
      then obtain w v vs where sp: "split c xs = w # v # vs" using split_with_sep by blast
      then have "last (split c (x # xs)) = last (split c xs)" using False by simp
      then show ?thesis using Cons True False by (auto simp: takeWhile_snoc)
    next
      case nin: False
      then show ?thesis using False by (simp add: split_no_sep takeWhile_snoc)
    qed
  qed
qed

lemma trailingDigits_all: "list_all isDigit s \<Longrightarrow> trailingDigits s = s"
proof -
  assume "list_all isDigit s"
  then have "\<forall>x\<in>set (rev s). isDigit x" by (simp add: list_all_iff)
  then have "takeWhile isDigit (rev s) = rev s" by (simp only: takeWhile_eq_all_conv)
  then show ?thesis by (simp only: trailingDigits_def rev_rev_ident)
qed

lemma trailingDigits_Cons:
  "\<not> list_all isDigit (x # xs) \<Longrightarrow> trailingDigits (x # xs) = trailingDigits xs"
  by (auto simp: trailingDigits_def list_all_iff takeWhile_snoc)

lemma actorIdRegex_exec_eq:
  "actorIdRegex_exec s = (if trailingDigits s = [] then None else Some (trailingDigits s))"
proof (induction s)
  case Nil
  then show ?case by (simp add: trailingDigits_def)
next
  case (Cons x xs)
  show ?case
  proof (cases "list_all isDigit (x # xs)")
    case True
    then show ?thesis using trailingDigits_all [OF True] by simp
  next
    case False
    then have "actorIdRegex_exec (x # xs) = actorIdRegex_exec xs" by auto
    then show ?thesis using Cons trailingDigits_Cons [OF False] by simp
  qed
qed

text \<open>
  C8 (amended). The display name of a source with a URL is the text after the last slash of
  the URL, cut before its first \<open>#\<close>: the fragment is stripped, a query string is kept.
  The display name of a source without URL whose actor name ends in a digit is the
  introduction type (\<open>Script\<close> when it is absent or empty), a space and the trailing
  digits of the actor name; when the actor name does not end in a digit it is empty.
\<close>

theorem createSource_name:
  "name (createSource a sourcePath ident) =
     (case actorUrl a of
        Some u \<Rightarrow> takeWhile (\<lambda>c. c \<noteq> CHR ''#'') (rev (takeWhile (\<lambda>c. c \<noteq> CHR ''/'') (rev u)))
      | None \<Rightarrow>
          (if trailingDigits (actorName a) = [] then []
           else introductionLabel a @ '' '' @ trailingDigits (actorName a)))"
  by (cases "actorUrl a"; cases sourcePath; cases "introductionType a")
     (simp_all add: createSource_def Let_def newSource_def hd_split last_split
        actorIdRegex_exec_eq introductionLabel_def truthyString_def)

lemma td1: "trailingDigits ''server1.conn0.source27'' = ''27''"
  by (simp add: trailingDigits_def isDigit_def)

lemma td2: "trailingDigits ''server1.conn0.source'' = ''''"
  by (simp add: trailingDigits_def isDigit_def)

theorem createSource_name_witness:
  "name (createSource (exampleActor (Some ''http://localhost/js/app.js?v=2#top'') ''server1.conn0.source27'') None 4)
     = ''app.js?v=2''
   \<and> name (createSource (exampleActor None ''server1.conn0.source27'') None 4) = ''Script 27''
   \<and> name (createSource (exampleActor None ''server1.conn0.source'') None 4) = ''''"
  using createSource_name [of "exampleActor (Some ''http://localhost/js/app.js?v=2#top'') ''server1.conn0.source27''" None 4]
    createSource_name [of "exampleActor None ''server1.conn0.source27''" None 4]
    createSource_name [of "exampleActor None ''server1.conn0.source''" None 4]
  by (simp add: exampleActor_def td1 td2 introductionLabel_def)

text \<open>
  C8 as the spec words it fails: the name of \<open>http://localhost/js/app.js?v=2\<close> keeps the
  query string, and an actor name without trailing digits gives the empty name, not the
  label.
\<close>

theorem createSource_name_counterexample:
  "name (createSource (exampleActor (Some ''http://localhost/js/app.js?v=2'') ''server1.conn0.source27'') None 4)
     = ''app.js?v=2''
   \<and> specDisplayName (exampleActor (Some ''http://localhost/js/app.js?v=2'') ''server1.conn0.source27'')
     = ''app.js''
   \<and> name (createSource (exampleActor (Some ''http://localhost/js/app.js?v=2'') ''server1.conn0.source27'') None 4)
     \<noteq> specDisplayName (exampleActor (Some ''http://localhost/js/app.js?v=2'') ''server1.conn0.source27'')
   \<and> name (createSource (exampleActor None ''server1.conn0.source'') None 4) = []
   \<and> specDisplayName (exampleActor None ''server1.conn0.source'') = ''Script ''"
  by (simp add: createSource_def Let_def newSource_def exampleActor_def hd_split last_split
        actorIdRegex_exec_eq td2 specDisplayName_def introductionLabel_def)

section \<open>Properties of the reconciliation\<close>

lemma isEquivalent_iff:
  "isEquivalent a b = (requestedBreakpoint a = requestedBreakpoint b)"
  by (cases "requestedBreakpoint a"; cases "requestedBreakpoint b")
     (auto simp: isEquivalent_def Let_def)

lemmas tr_defs = emit_def suspend_def settled_def rejectRun_def

lemma suspended_single:
  "length (suspended s) \<le> 1 \<Longrightarrow> map_of (suspended s) r = Some k \<Longrightarrow> suspended s = [(r, k)]"
  by (cases "suspended s") (auto split: if_splits)

lemma inv1_syncBreakpoints:
  "suspended s = [] \<Longrightarrow> inv1 (syncBreakpoints s)"
  by (auto simp: inv1_def syncBreakpoints_def Let_def tr_defs split: option.splits)

lemma inv1_checkAndSync:
  "inv1 s \<Longrightarrow> (\<not> isSyncingBreakpoints s \<longrightarrow> suspended s = []) \<Longrightarrow> inv1 (checkAndSyncBreakpoints s)"
  by (auto simp: checkAndSyncBreakpoints_def inv1_syncBreakpoints) (auto simp: inv1_def)

lemma inv1_update: "inv1 s \<Longrightarrow> inv1 (updateBreakpoints bps s)"
  unfolding updateBreakpoints_def
  by (rule inv1_checkAndSync) (auto simp: inv1_def)

lemma inv1_finishSync:
  "suspended s = [(r, k)] \<Longrightarrow> inv1 (finishSync r keep added s)"
  unfolding finishSync_def
  by (rule inv1_checkAndSync) (auto simp: inv1_def tr_defs)

lemma inv1_rejectRun: "suspended s = [(r, k)] \<Longrightarrow> inv1 (rejectRun r s)"
  by (simp add: inv1_def tr_defs)

lemma inv1_afterDeletions:
  "inv1 s \<Longrightarrow> suspended s = [(r, k)] \<Longrightarrow> inv1 (afterDeletions r d keep s)"
  by (auto simp: inv1_def afterDeletions_def Let_def tr_defs split: option.splits)

lemma inv1_afterBreakpointPositions:
  "inv1 s \<Longrightarrow> suspended s = [(r, k)] \<Longrightarrow> inv1 (afterBreakpointPositions f r keep toAdd ps s)"
  by (auto simp: inv1_def afterBreakpointPositions_def Let_def tr_defs)

lemma inv1_afterAdditions:
  "suspended s = [(r, k)] \<Longrightarrow> inv1 (afterAdditions r keep added s)"
  unfolding afterAdditions_def by (rule inv1_finishSync [where k = k]) (simp add: emit_def)

lemma inv1_resume:
  "inv1 s \<Longrightarrow> suspended s = [(r, k)] \<Longrightarrow> resume f r k out s = Some s' \<Longrightarrow> inv1 s'"
  by (cases "(f, r, k, out, s)" rule: resume.cases)
     (auto simp: inv1_rejectRun inv1_afterDeletions inv1_afterBreakpointPositions
        inv1_afterAdditions split: if_splits)

lemma inv1_step: "inv1 s \<Longrightarrow> step f e s = Some s' \<Longrightarrow> inv1 s'"
proof (cases e)
  case (UpdateBreakpoints bps)
  assume "inv1 s" "step f e s = Some s'"
  then show ?thesis using UpdateBreakpoints by (auto simp: step_def canRunOnPausedThread_def inv1_update)
next
  case RunOnPausedThread
  assume "inv1 s" "step f e s = Some s'"
  then show ?thesis using RunOnPausedThread
    by (auto simp: step_def canRunOnPausedThread_def inv1_syncBreakpoints split: if_splits)
next
  case (Settle r out)
  assume a: "inv1 s" "step f e s = Some s'"
  then obtain k where k: "map_of (suspended s) r = Some k" "resume f r k out s = Some s'"
    using Settle by (auto simp: step_def canRunOnPausedThread_def split: option.splits)
  have "suspended s = [(r, k)]" using a(1) k(1) by (auto simp: inv1_def intro: suspended_single)
  then show ?thesis using a(1) k(2) inv1_resume by blast
qed



lemma runTrace_append: "runTrace r (xs @ ys) = runTrace r xs @ runTrace r ys"
  by (simp add: runTrace_def)

lemma runTrace_same: "\<forall>a\<in>set new. runOf a = r \<Longrightarrow> runTrace r new = new"
  by (simp add: runTrace_def)

lemma sorted_runTrace_append:
  assumes "sorted (map stage (runTrace r' tr))"
    and "\<forall>a\<in>set new. runOf a = r"
    and "sorted (map stage new)"
    and "\<forall>x\<in>set (runTrace r tr). \<forall>y\<in>set new. stage x \<le> stage y"
  shows "sorted (map stage (runTrace r' (tr @ new)))"
proof (cases "r' = r")
  case True
  then show ?thesis using assms
    by (simp add: runTrace_append runTrace_same sorted_append)
next
  case False
  then have "runTrace r' new = []" using assms(2) by (auto simp: runTrace_def filter_empty_conv)
  then show ?thesis using assms(1) by (simp add: runTrace_append)
qed

lemma runTrace_fresh: "\<forall>a\<in>set tr. runOf a < n \<Longrightarrow> runTrace n tr = []"
  by (auto simp: runTrace_def filter_empty_conv)

text \<open>A generic step: the run r appends new actions and continues (or ends).\<close>

lemma traceInv_extend:
  assumes inv: "traceInv s"
    and sus: "suspended s = [(r, k)] \<or> (suspended s = [] \<and> r = nextRun s)"
    and tr': "trace s' = trace s @ new"
    and new: "\<forall>a\<in>set new. runOf a = r" "sorted (map stage new)"
    and lo: "suspended s = [(r, k)] \<longrightarrow> (\<forall>y\<in>set new. awaitStage k \<le> stage y)"
    and nx: "nextRun s' = (if suspended s = [] then Suc (nextRun s) else nextRun s)"
    and sus': "suspended s' = [] \<or> (\<exists>k'. suspended s' = [(r, k')]
                 \<and> (\<forall>y\<in>set new. stage y \<le> awaitStage k')
                 \<and> (suspended s = [(r, k)] \<longrightarrow> awaitStage k \<le> awaitStage k')
                 \<and> (3 \<le> awaitStage k' \<longrightarrow> DeletionsCompleted r \<in> set (trace s @ new)))"
    and mk: "\<forall>a\<in>set new. stage a = 4 \<longrightarrow> DeletionsCompleted r \<in> set (trace s @ new)"
  shows "traceInv s'"
proof -
  have rlt: "r < nextRun s'" using inv sus nx by (auto simp: traceInv_def)
  have old: "\<forall>x\<in>set (runTrace r (trace s)). \<forall>y\<in>set new. stage x \<le> stage y"
  proof (cases "suspended s = []")
    case True
    then have "runTrace r (trace s) = []" using inv sus by (auto simp: traceInv_def intro: runTrace_fresh)
    then show ?thesis by simp
  next
    case False
    then have "suspended s = [(r, k)]" using sus by auto
    then show ?thesis using inv lo by (fastforce simp: traceInv_def)
  qed
  have c1: "\<forall>a\<in>set (trace s'). runOf a < nextRun s'"
    using inv rlt new(1) nx tr' by (auto simp: traceInv_def less_Suc_eq)
  have c3: "\<forall>r'. sorted (map stage (runTrace r' (trace s')))"
    using inv new old tr' by (auto simp: traceInv_def intro!: sorted_runTrace_append)
  have c4: "\<forall>a\<in>set (trace s'). stage a = 4 \<longrightarrow> DeletionsCompleted (runOf a) \<in> set (trace s')"
    using inv mk new(1) tr' by (auto simp: traceInv_def)
  have c2: "\<forall>(r', k')\<in>set (suspended s'). r' < nextRun s'
            \<and> (\<forall>a\<in>set (runTrace r' (trace s')). stage a \<le> awaitStage k')
            \<and> (3 \<le> awaitStage k' \<longrightarrow> DeletionsCompleted r' \<in> set (trace s'))"
  proof (cases "suspended s' = []")
    case True
    then show ?thesis by simp
  next
    case False
    then obtain k' where k': "suspended s' = [(r, k')]" "\<forall>y\<in>set new. stage y \<le> awaitStage k'"
      "suspended s = [(r, k)] \<longrightarrow> awaitStage k \<le> awaitStage k'"
      "3 \<le> awaitStage k' \<longrightarrow> DeletionsCompleted r \<in> set (trace s @ new)"
      using sus' by auto
    have "\<forall>a\<in>set (runTrace r (trace s)). stage a \<le> awaitStage k'"
    proof (cases "suspended s = []")
      case True
      then have "runTrace r (trace s) = []" using inv sus by (auto simp: traceInv_def intro: runTrace_fresh)
      then show ?thesis by simp
    next
      case False
      then have "suspended s = [(r, k)]" using sus by auto
      then show ?thesis using inv k'(3) by (fastforce simp: traceInv_def)
    qed
    then show ?thesis using k' rlt new(1) tr' by (auto simp: runTrace_append runTrace_same)
  qed
  show ?thesis unfolding traceInv_def using c1 c2 c3 c4 by blast
qed

lemma traceInv_syncBreakpoints:
  assumes "traceInv s" "suspended s = []"
  shows "traceInv (syncBreakpoints s)"
proof (cases "desiredBreakpoints s")
  case None
  show ?thesis
  proof (cases "currentBreakpoints s = []")
    case True
    show ?thesis
      by (rule traceInv_extend [OF assms(1), where r = "nextRun s"
            and new = "[SyncStarted (nextRun s) None]"])
         (use assms(2) None True in \<open>auto simp: syncBreakpoints_def Let_def tr_defs\<close>)
  next
    case False
    show ?thesis
      by (rule traceInv_extend [OF assms(1), where r = "nextRun s"
            and new = "[SyncStarted (nextRun s) None, SyncRejected (nextRun s)]"])
         (use assms(2) None False in \<open>auto simp: syncBreakpoints_def Let_def tr_defs\<close>)
  qed
next
  case (Some d)
  have srt: "sorted (map stage (SyncStarted r (Some d) # map (DeleteCall r) xs))" for r xs
    by (induction xs) auto
  show ?thesis
    by (rule traceInv_extend [OF assms(1), where r = "nextRun s"
          and new = "SyncStarted (nextRun s) (Some d) # map (DeleteCall (nextRun s))
            (filter (\<lambda>c. \<not> list_ex (\<lambda>q. isEquivalent q (breakpointInfo c)) d) (currentBreakpoints s))"])
       (use assms(2) Some srt in \<open>auto simp: syncBreakpoints_def Let_def tr_defs\<close>)
qed

lemma sorted_map_const: "\<forall>x\<in>set xs. f x = (c::nat) \<Longrightarrow> sorted (map f xs)"
  by (induction xs) auto

lemma traceInv_cong:
  "trace s' = trace s \<Longrightarrow> suspended s' = suspended s \<Longrightarrow> nextRun s' = nextRun s
   \<Longrightarrow> traceInv s' = traceInv s"
  by (simp add: traceInv_def)

lemma traceInv_checkAndSync:
  assumes "traceInv s" "\<not> isSyncingBreakpoints s \<longrightarrow> suspended s = []"
  shows "traceInv (checkAndSyncBreakpoints s)"
proof -
  have "traceInv (s\<lparr> queuedOnPausedThread := queuedOnPausedThread s + 1 \<rparr>)"
    using assms(1) by (simp add: traceInv_def)
  then show ?thesis using assms by (auto simp: checkAndSyncBreakpoints_def traceInv_syncBreakpoints)
qed

lemma traceInv_update:
  assumes "traceInv s" "inv1 s"
  shows "traceInv (updateBreakpoints bps s)"
proof -
  have "traceInv (s\<lparr> desiredBreakpoints := Some bps \<rparr>)" using assms(1) by (simp add: traceInv_def)
  then show ?thesis unfolding updateBreakpoints_def
    by (rule traceInv_checkAndSync) (use assms(2) in \<open>auto simp: inv1_def\<close>)
qed

lemma awaitStage_le: "awaitStage k \<le> 4"
  by (cases k) auto

lemma traceInv_rejectRun:
  assumes "traceInv s" "suspended s = [(r, k)]"
  shows "traceInv (rejectRun r s)"
  by (rule traceInv_extend [OF assms(1), where r = r and k = k and new = "[SyncRejected r]"])
     (use assms(2) awaitStage_le [of k] in \<open>auto simp: tr_defs\<close>)

lemma traceInv_afterDeletions:
  assumes "traceInv s" "suspended s = [(r, AwaitDeletions d keep)]"
  shows "traceInv (afterDeletions r d keep s)"
proof (cases d)
  case None
  show ?thesis
    by (rule traceInv_extend [OF assms(1), where r = r and k = "AwaitDeletions d keep"
          and new = "[DeletionsCompleted r, SyncRejected r]"])
       (use assms(2) None in \<open>auto simp: afterDeletions_def Let_def tr_defs\<close>)
next
  case (Some ds)
  let ?toAdd = "filter (\<lambda>b. \<not> list_ex (\<lambda>c. isEquivalent b (breakpointInfo c)) (currentBreakpoints s)) ds"
  show ?thesis
  proof (cases "newBreakpointProtocol s")
    case True
    show ?thesis
      by (rule traceInv_extend [OF assms(1), where r = r and k = "AwaitDeletions d keep"
            and new = "[DeletionsCompleted r, GetBreakpointPositionsCall r]"])
         (use assms(2) Some True in \<open>auto simp: afterDeletions_def Let_def tr_defs\<close>)
  next
    case False
    let ?calls = "map (\<lambda>b. SourceSetBreakpointCall r (line (requestedBreakpoint b))
                  (column (requestedBreakpoint b)) (condition (requestedBreakpoint b))) ?toAdd"
    have srt: "sorted (map stage (DeletionsCompleted r # ?calls))"
      by (auto simp: o_def intro!: sorted_map_const [where c = 4])
    show ?thesis
      by (rule traceInv_extend [OF assms(1), where r = r and k = "AwaitDeletions d keep"
            and new = "DeletionsCompleted r # ?calls"])
         (use assms(2) Some False srt in \<open>auto simp: afterDeletions_def Let_def tr_defs\<close>)
  qed
qed

lemma traceInv_afterBreakpointPositions:
  assumes "traceInv s" "suspended s = [(r, AwaitBreakpointPositions keep toAdd)]"
  shows "traceInv (afterBreakpointPositions f r keep toAdd ps s)"
proof -
  let ?calls = "map (\<lambda>b. ThreadSetBreakpointCall r (actualLine b) (actualColumn b)
                  (actorUrl (actor s)) (condition (requestedBreakpoint b)) (logValue b))
                  (map (resolveActualLocation f ps) toAdd)"
  have srt: "sorted (map stage ?calls)"
    by (auto simp: o_def intro!: sorted_map_const [where c = 4])
  have mk: "DeletionsCompleted r \<in> set (trace s)"
    using assms by (auto simp: traceInv_def)
  show ?thesis
    by (rule traceInv_extend [OF assms(1), where r = r and k = "AwaitBreakpointPositions keep toAdd"
          and new = ?calls])
       (use assms(2) srt mk in \<open>auto simp: afterBreakpointPositions_def Let_def tr_defs\<close>)
qed

lemma traceInv_afterAdditions:
  assumes "traceInv s" "suspended s = [(r, AwaitAdditions keep toAdd)]"
    and "\<forall>p\<in>set added. runOf (fst p) = r \<and> stage (fst p) = 5"
  shows "traceInv (afterAdditions r keep added s)"
proof -
  let ?m = "emit [SyncFinished r]
             (settled r (emit (map fst added) s
                \<lparr> currentBreakpoints := keep @ map snd added, isSyncingBreakpoints := False \<rparr>))"
  have srt: "sorted (map stage (map fst added @ [SyncFinished r]))"
    using assms(3) by (auto simp: sorted_append o_def intro!: sorted_map_const [where c = 5])
  have "traceInv ?m"
    by (rule traceInv_extend [OF assms(1), where r = r and k = "AwaitAdditions keep toAdd"
          and new = "map fst added @ [SyncFinished r]"])
       (use assms(2,3) srt in \<open>auto simp: tr_defs\<close>)
  moreover have "suspended ?m = []" using assms(2) by (simp add: tr_defs)
  ultimately have "traceInv (checkAndSyncBreakpoints ?m)" by (simp add: traceInv_checkAndSync)
  then show ?thesis by (simp add: afterAdditions_def finishSync_def)
qed

lemma added_stage:
  "runOf (fst (addedNewProtocol r b)) = r \<and> stage (fst (addedNewProtocol r b)) = 5"
  "runOf (fst (addedOldProtocol r p)) = r \<and> stage (fst (addedOldProtocol r p)) = 5"
  by (simp_all add: addedNewProtocol_def addedOldProtocol_def verifyBreakpoint_def Let_def)

lemma traceInv_resume:
  assumes "traceInv s" "suspended s = [(r, k)]" "resume f r k out s = Some s'"
  shows "traceInv s'"
proof (cases out)
  case Rejected
  then show ?thesis using assms by (auto simp: traceInv_rejectRun)
next
  case DeletionsResolved
  then show ?thesis using assms by (cases k) (auto simp: traceInv_afterDeletions)
next
  case (PositionsResolved ps)
  then show ?thesis using assms by (cases k) (auto simp: traceInv_afterBreakpointPositions)
next
  case AdditionsResolved
  show ?thesis
  proof (cases k)
    case (AwaitAdditions keep toAdd)
    then have "s' = afterAdditions r keep (map (addedNewProtocol r) toAdd) s"
      using assms(3) AdditionsResolved by (simp split: if_splits)
    moreover have "traceInv (afterAdditions r keep (map (addedNewProtocol r) toAdd) s)"
      by (rule traceInv_afterAdditions [OF assms(1), where toAdd = toAdd])
         (use assms(2) AwaitAdditions in \<open>simp_all add: added_stage\<close>)
    ultimately show ?thesis by simp
  qed (use assms(3) AdditionsResolved in simp_all)
next
  case (SourceAdditionsResolved results)
  show ?thesis
  proof (cases k)
    case (AwaitAdditions keep toAdd)
    then have "s' = afterAdditions r keep (map (addedOldProtocol r) (zip toAdd results)) s"
      using assms(3) SourceAdditionsResolved by (simp split: if_splits)
    moreover have "traceInv (afterAdditions r keep (map (addedOldProtocol r) (zip toAdd results)) s)"
      by (rule traceInv_afterAdditions [OF assms(1), where toAdd = toAdd])
         (use assms(2) AwaitAdditions in \<open>simp_all add: added_stage\<close>)
    ultimately show ?thesis by simp
  qed (use assms(3) SourceAdditionsResolved in simp_all)
qed

lemma inv_step: "inv s \<Longrightarrow> step f e s = Some s' \<Longrightarrow> inv s'"
proof (cases e)
  case (UpdateBreakpoints bps)
  assume "inv s" "step f e s = Some s'"
  then show ?thesis using UpdateBreakpoints
    by (auto simp: step_def canRunOnPausedThread_def inv_def inv1_update traceInv_update)
next
  case RunOnPausedThread
  assume "inv s" "step f e s = Some s'"
  moreover have "traceInv (s\<lparr> queuedOnPausedThread := queuedOnPausedThread s - 1 \<rparr>) = traceInv s"
    by (simp add: traceInv_def)
  ultimately show ?thesis using RunOnPausedThread
    by (auto simp: step_def canRunOnPausedThread_def inv_def inv1_syncBreakpoints traceInv_syncBreakpoints split: if_splits)
next
  case (Settle r out)
  assume a: "inv s" "step f e s = Some s'"
  then obtain k where k: "map_of (suspended s) r = Some k" "resume f r k out s = Some s'"
    using Settle by (auto simp: step_def canRunOnPausedThread_def split: option.splits)
  have "suspended s = [(r, k)]" using a(1) k(1) by (auto simp: inv_def inv1_def intro: suspended_single)
  then show ?thesis using a(1) k(2) inv1_resume traceInv_resume unfolding inv_def by blast
qed

lemma inv_exec: "inv s \<Longrightarrow> exec f es s = Some s' \<Longrightarrow> inv s'"
  by (induction es arbitrary: s) (auto split: option.splits dest: inv_step)

lemma inv_new: "inv (newSourceAdapter a np)"
  by (simp add: inv_def inv1_def traceInv_def newSourceAdapter_def runTrace_def)

lemma runTrace_split:
  "runTrace r (xs @ a # ys) = runTrace r xs @ (if runOf a = r then [a] else []) @ runTrace r ys"
  by (simp add: runTrace_def)

text \<open>
  C3. Within one run of syncBreakpoints every deletion is over before any addition begins:
  in the actions of an adapter, whatever happened to it, no addition of run r comes before
  the point where the deletions of run r have completed, no deletion of run r comes after
  it, and an addition of run r is there only if that point is. In particular a breakpoint
  that replaces an installed one at the same line with another condition is added after the
  old one has been deleted (the witness below runs this case).
\<close>

theorem deletions_before_additions:
  assumes "exec f es (newSourceAdapter a np) = Some s"
  shows "(\<forall>xs ys. trace s = xs @ DeletionsCompleted r # ys \<longrightarrow>
            (\<forall>b\<in>set xs. \<not> isAddCall r b) \<and> (\<forall>b\<in>set ys. \<not> isDeleteCall r b))
       \<and> (\<forall>b\<in>set (trace s). isAddCall r b \<longrightarrow> DeletionsCompleted r \<in> set (trace s))"
proof -
  have ti: "traceInv s" using inv_exec [OF inv_new assms] by (simp add: inv_def)
  have s: "sorted (map stage (runTrace r (trace s)))" using ti by (simp add: traceInv_def)
  have p1: "\<forall>b\<in>set xs. \<not> isAddCall r b" "\<forall>b\<in>set ys. \<not> isDeleteCall r b"
    if "trace s = xs @ DeletionsCompleted r # ys" for xs ys
  proof -
    have srt: "sorted (map stage (runTrace r xs) @ 2 # map stage (runTrace r ys))"
      using s that by (simp add: runTrace_split)
    show "\<forall>b\<in>set xs. \<not> isAddCall r b"
    proof
      fix b assume b: "b \<in> set xs"
      show "\<not> isAddCall r b"
      proof
        assume ab: "isAddCall r b"
        have "runOf b = r" using ab by (cases b) (simp_all add: isAddCall_def)
        moreover have "stage b = 4" using ab by (cases b) (simp_all add: isAddCall_def)
        ultimately have "runOf b = r" "stage b = 4" by simp_all
        then have "b \<in> set (runTrace r xs)" using b by (simp add: runTrace_def)
        then have "stage b \<le> 2" using srt by (auto simp: sorted_append)
        then show False using \<open>stage b = 4\<close> by simp
      qed
    qed
    show "\<forall>b\<in>set ys. \<not> isDeleteCall r b"
    proof
      fix b assume b: "b \<in> set ys"
      show "\<not> isDeleteCall r b"
      proof
        assume db: "isDeleteCall r b"
        have "runOf b = r" using db by (cases b) (simp_all add: isDeleteCall_def)
        moreover have "stage b = 1" using db by (cases b) (simp_all add: isDeleteCall_def)
        ultimately have "runOf b = r" "stage b = 1" by simp_all
        then have "b \<in> set (runTrace r ys)" using b by (simp add: runTrace_def)
        then have "2 \<le> stage b" using srt by (auto simp: sorted_append)
        then show False using \<open>stage b = 1\<close> by simp
      qed
    qed
  qed
  have p2: "\<forall>b\<in>set (trace s). isAddCall r b \<longrightarrow> DeletionsCompleted r \<in> set (trace s)"
  proof (intro ballI impI)
    fix b assume b: "b \<in> set (trace s)" "isAddCall r b"
    have "runOf b = r" using b(2) by (cases b) (simp_all add: isAddCall_def)
    moreover have "stage b = 4" using b(2) by (cases b) (simp_all add: isAddCall_def)
    ultimately show "DeletionsCompleted r \<in> set (trace s)" using ti b(1) by (auto simp: traceInv_def)
  qed
  show ?thesis using p1 p2 by blast
qed


subsection \<open>Examples, evaluated\<close>

lemmas machine_defs =
  step_def updateBreakpoints_def checkAndSyncBreakpoints_def syncBreakpoints_def
  afterDeletions_def afterBreakpointPositions_def afterAdditions_def finishSync_def
  addedNewProtocol_def addedOldProtocol_def verifyBreakpoint_def resolveActualLocation_def
  logValue_def emit_def suspend_def settled_def rejectRun_def canRunOnPausedThread_def
  newSourceAdapter_def isEquivalent_def Let_def truthyString_def

lemmas example_defs =
  exampleAdapter_def exampleActor_def exampleBreakpoint_def exampleInstalled_def exampleFindNext_def

lemma replace_run:
  "exec exampleFindNext
     [UpdateBreakpoints [exampleBreakpoint 10 (Some ''x>1'')],
      Settle 0 DeletionsResolved, Settle 0 (PositionsResolved []), Settle 0 AdditionsResolved,
      UpdateBreakpoints [exampleBreakpoint 10 (Some ''x>2'')],
      Settle 1 DeletionsResolved, Settle 1 (PositionsResolved [])]
     (exampleAdapter True)
   = Some \<lparr> actor = exampleActor (Some ''http://localhost/js/app.js'') ''server1.conn0.source27'',
       currentBreakpoints = [exampleInstalled 10 (Some ''x>1'')],
       desiredBreakpoints = None, isSyncingBreakpoints = True, newBreakpointProtocol = True,
       suspended = [(1, AwaitAdditions []
         [(exampleBreakpoint 10 (Some ''x>2''))\<lparr> actualLine := Some 10, actualColumn := Some 0 \<rparr>])],
       queuedOnPausedThread = 0, nextRun = 2,
       trace =
         [SyncStarted 0 (Some [exampleBreakpoint 10 (Some ''x>1'')]),
          DeletionsCompleted 0, GetBreakpointPositionsCall 0,
          ThreadSetBreakpointCall 0 (Some 10) (Some 0) (Some ''http://localhost/js/app.js'') (Some ''x>1'') None,
          VerifyBreakpointCall 0
            ((exampleBreakpoint 10 (Some ''x>1''))\<lparr> actualLine := Some 10, actualColumn := Some 0 \<rparr>)
            (Some 10) (Some 0),
          SyncFinished 0,
          SyncStarted 1 (Some [exampleBreakpoint 10 (Some ''x>2'')]),
          DeleteCall 1 (exampleInstalled 10 (Some ''x>1'')),
          DeletionsCompleted 1, GetBreakpointPositionsCall 1,
          ThreadSetBreakpointCall 1 (Some 10) (Some 0) (Some ''http://localhost/js/app.js'') (Some ''x>2'') None] \<rparr>"
  by (simp add: machine_defs example_defs)

theorem deletions_before_additions_witness:
  "map_option trace
     (exec exampleFindNext
        [UpdateBreakpoints [exampleBreakpoint 10 (Some ''x>1'')],
         Settle 0 DeletionsResolved, Settle 0 (PositionsResolved []), Settle 0 AdditionsResolved,
         UpdateBreakpoints [exampleBreakpoint 10 (Some ''x>2'')],
         Settle 1 DeletionsResolved, Settle 1 (PositionsResolved [])]
        (newSourceAdapter (exampleActor (Some ''http://localhost/js/app.js'') ''server1.conn0.source27'') True))
     = Some
        ([SyncStarted 0 (Some [exampleBreakpoint 10 (Some ''x>1'')]),
          DeletionsCompleted 0, GetBreakpointPositionsCall 0,
          ThreadSetBreakpointCall 0 (Some 10) (Some 0) (Some ''http://localhost/js/app.js'') (Some ''x>1'') None,
          VerifyBreakpointCall 0
            ((exampleBreakpoint 10 (Some ''x>1''))\<lparr> actualLine := Some 10, actualColumn := Some 0 \<rparr>)
            (Some 10) (Some 0),
          SyncFinished 0,
          SyncStarted 1 (Some [exampleBreakpoint 10 (Some ''x>2'')]),
          DeleteCall 1 (exampleInstalled 10 (Some ''x>1''))]
         @ DeletionsCompleted 1 #
         [GetBreakpointPositionsCall 1,
          ThreadSetBreakpointCall 1 (Some 10) (Some 0) (Some ''http://localhost/js/app.js'') (Some ''x>2'') None])
   \<and> \<not> isAddCall 1 (DeleteCall 1 (exampleInstalled 10 (Some ''x>1'')))
   \<and> isDeleteCall 1 (DeleteCall 1 (exampleInstalled 10 (Some ''x>1'')))
   \<and> \<not> isDeleteCall 1 (ThreadSetBreakpointCall 1 (Some 10) (Some 0)
          (Some ''http://localhost/js/app.js'') (Some ''x>2'') None)
   \<and> isAddCall 1 (ThreadSetBreakpointCall 1 (Some 10) (Some 0)
          (Some ''http://localhost/js/app.js'') (Some ''x>2'') None)"
  using deletions_before_additions [OF replace_run [unfolded exampleAdapter_def], of 1]
    replace_run [unfolded exampleAdapter_def]
  by (simp add: isAddCall_def isDeleteCall_def del: exec.simps)

subsection \<open>The legacy protocol's actual position\<close>

lemma afterAdditions_legacy:
  assumes "\<not> newBreakpointProtocol s"
  shows "currentBreakpoints (afterAdditions r keep added s) = keep @ map snd added"
    and "trace (afterAdditions r keep added s) = trace s @ map fst added @ [SyncFinished r]"
    and "isSyncingBreakpoints (afterAdditions r keep added s) = False"
  using assms
  by (simp_all add: afterAdditions_def finishSync_def checkAndSyncBreakpoints_def tr_defs)

lemma addedOldProtocol_eq:
  "addedOldProtocol r (b, res) =
     (case actualLocation res of
        Some loc \<Rightarrow>
          (VerifyBreakpointCall r b (Some (fst loc)) (snd loc),
           OldProtocolBreakpointAdapter (b\<lparr> actualLine := Some (fst loc), actualColumn := snd loc \<rparr>)
             (breakpointActor res))
      | None \<Rightarrow>
          (VerifyBreakpointCall r b (Some (line (requestedBreakpoint b))) (column (requestedBreakpoint b)),
           OldProtocolBreakpointAdapter
             (b\<lparr> actualLine := Some (line (requestedBreakpoint b)),
                 actualColumn := column (requestedBreakpoint b) \<rparr>)
             (breakpointActor res)))"
  by (simp add: addedOldProtocol_def verifyBreakpoint_def Let_def split: option.splits)

text \<open>
  C7. Under the legacy protocol, when the additions of a run have resolved, every added
  breakpoint is reported to the verification sink with the actual location of its
  setBreakpoint result if the result carries one, and with its requested line and requested
  column otherwise; the descriptor of the installed breakpoint holds that position (the
  sink stores it).
\<close>

theorem legacy_actual_position_fallback:
  assumes "\<not> newBreakpointProtocol s"
    and "suspended s = [(r, AwaitAdditions keep toAdd)]"
    and "length results = length toAdd"
    and "i < length toAdd"
  shows "\<exists>s'. step f (Settle r (SourceAdditionsResolved results)) s = Some s'
     \<and> (\<forall>l c. actualLocation (results ! i) = Some (l, c) \<longrightarrow>
           trace s' ! (length (trace s) + i) = VerifyBreakpointCall r (toAdd ! i) (Some l) c
           \<and> currentBreakpoints s' ! (length keep + i)
               = OldProtocolBreakpointAdapter ((toAdd ! i)\<lparr> actualLine := Some l, actualColumn := c \<rparr>)
                   (breakpointActor (results ! i)))
     \<and> (actualLocation (results ! i) = None \<longrightarrow>
           trace s' ! (length (trace s) + i)
             = VerifyBreakpointCall r (toAdd ! i)
                 (Some (line (requestedBreakpoint (toAdd ! i))))
                 (column (requestedBreakpoint (toAdd ! i)))
           \<and> currentBreakpoints s' ! (length keep + i)
               = OldProtocolBreakpointAdapter
                   ((toAdd ! i)\<lparr> actualLine := Some (line (requestedBreakpoint (toAdd ! i))),
                                  actualColumn := column (requestedBreakpoint (toAdd ! i)) \<rparr>)
                   (breakpointActor (results ! i)))"
proof -
  let ?added = "map (addedOldProtocol r) (zip toAdd results)"
  let ?s' = "afterAdditions r keep ?added s"
  have st: "step f (Settle r (SourceAdditionsResolved results)) s = Some ?s'"
    using assms(1-3) by (simp add: step_def)
  have i: "i < length (zip toAdd results)" using assms(3,4) by simp
  have tr: "trace ?s' ! (length (trace s) + i) = fst (addedOldProtocol r (toAdd ! i, results ! i))"
    using i assms(1) by (simp add: afterAdditions_legacy nth_append)
  have cur: "currentBreakpoints ?s' ! (length keep + i) = snd (addedOldProtocol r (toAdd ! i, results ! i))"
    using i assms(1) by (simp add: afterAdditions_legacy nth_append)
  show ?thesis
    using st tr cur by (auto simp: addedOldProtocol_eq)
qed

theorem legacy_actual_position_fallback_witness:
  "step exampleFindNext
     (Settle 0 (SourceAdditionsResolved
        [\<lparr> actualLocation = Some (6, Some 2), breakpointActor = ''bp1'' \<rparr>,
         \<lparr> actualLocation = None, breakpointActor = ''bp2'' \<rparr>])) exampleLegacy
   = Some (exampleLegacy
       \<lparr> currentBreakpoints :=
           [OldProtocolBreakpointAdapter
              ((exampleBreakpoint 5 None)\<lparr> actualLine := Some 6, actualColumn := Some 2 \<rparr>) ''bp1'',
            OldProtocolBreakpointAdapter
              ((exampleBreakpoint 7 None)\<lparr> actualLine := Some 7, actualColumn := None \<rparr>) ''bp2''],
         isSyncingBreakpoints := False, suspended := [],
         trace := [VerifyBreakpointCall 0 (exampleBreakpoint 5 None) (Some 6) (Some 2),
                   VerifyBreakpointCall 0 (exampleBreakpoint 7 None) (Some 7) None,
                   SyncFinished 0] \<rparr>)"
proof -
  have a: "\<not> newBreakpointProtocol exampleLegacy"
    "suspended exampleLegacy = [(0, AwaitAdditions [] [exampleBreakpoint 5 None, exampleBreakpoint 7 None])]"
    by (simp_all add: exampleLegacy_def example_defs newSourceAdapter_def)
  have l: "length [\<lparr> actualLocation = Some (6, Some 2), breakpointActor = ''bp1'' \<rparr>,
         \<lparr> actualLocation = None, breakpointActor = ''bp2'' \<rparr>]
      = length [exampleBreakpoint 5 None, exampleBreakpoint 7 None]" by simp
  have i0: "0 < length [exampleBreakpoint 5 None, exampleBreakpoint 7 None]" by simp
  have i1: "1 < length [exampleBreakpoint 5 None, exampleBreakpoint 7 None]" by simp
  show ?thesis
    using legacy_actual_position_fallback [OF a l i0, of exampleFindNext]
      legacy_actual_position_fallback [OF a l i1, of exampleFindNext]
    by (simp add: machine_defs exampleLegacy_def example_defs)
qed

subsection \<open>One desired set at a time\<close>

lemma img_eq_iff:
  "((\<forall>c\<in>A. \<exists>d\<in>B. g d = f c) \<and> (\<forall>d\<in>B. \<exists>c\<in>A. g d = f c)) = (f ` A = g ` B)"
proof
  assume a: "(\<forall>c\<in>A. \<exists>d\<in>B. g d = f c) \<and> (\<forall>d\<in>B. \<exists>c\<in>A. g d = f c)"
  have "f ` A \<subseteq> g ` B"
  proof
    fix x assume "x \<in> f ` A"
    then obtain c where c: "c \<in> A" "x = f c" by (rule imageE)
    then obtain d where d: "d \<in> B" "g d = f c" using a by blast
    have "x = g d" using c(2) d(2) by simp
    then show "x \<in> g ` B" using d(1) by (rule image_eqI)
  qed
  moreover have "g ` B \<subseteq> f ` A"
  proof
    fix x assume "x \<in> g ` B"
    then obtain d where d: "d \<in> B" "x = g d" by (rule imageE)
    then obtain c where c: "c \<in> A" "g d = f c" using a by blast
    have "x = f c" using c(2) d(2) by simp
    then show "x \<in> f ` A" using c(1) by (rule image_eqI)
  qed
  ultimately show "f ` A = g ` B" by (rule equalityI)
next
  assume e: "f ` A = g ` B"
  show "(\<forall>c\<in>A. \<exists>d\<in>B. g d = f c) \<and> (\<forall>d\<in>B. \<exists>c\<in>A. g d = f c)"
  proof (intro conjI ballI)
    fix c assume "c \<in> A"
    then have "f c \<in> f ` A" by (rule imageI)
    then have "f c \<in> g ` B" using e by simp
    then obtain d where "d \<in> B" "f c = g d" by (rule imageE)
    then show "\<exists>d\<in>B. g d = f c" by (intro bexI [of _ d]) simp_all
  next
    fix d assume "d \<in> B"
    then have "g d \<in> g ` B" by (rule imageI)
    then have "g d \<in> f ` A" using e by simp
    then obtain c where "c \<in> A" "g d = f c" by (rule imageE)
    then show "\<exists>c\<in>A. g d = f c" by (intro bexI [of _ c]) simp_all
  qed
qed

lemma img_filter_in:
  "f ` {x \<in> A. \<exists>q\<in>B. g q = f x} = f ` A \<inter> g ` B"
proof (intro set_eqI iffI)
  fix y assume "y \<in> f ` {x \<in> A. \<exists>q\<in>B. g q = f x}"
  then obtain x where x: "x \<in> {x \<in> A. \<exists>q\<in>B. g q = f x}" "y = f x" by (rule imageE)
  then obtain q where q: "x \<in> A" "q \<in> B" "g q = f x" by blast
  have "y \<in> f ` A" using x(2) q(1) by (rule image_eqI)
  moreover have "y = g q" using x(2) q(3) by simp
  then have "y \<in> g ` B" using q(2) by (rule image_eqI)
  ultimately show "y \<in> f ` A \<inter> g ` B" by (rule IntI)
next
  fix y assume "y \<in> f ` A \<inter> g ` B"
  then have "y \<in> f ` A" "y \<in> g ` B" by simp_all
  then obtain x q where xq: "x \<in> A" "y = f x" "q \<in> B" "y = g q" by (elim imageE)
  have "g q = f x" using xq(2,4) by simp
  then have "x \<in> {x \<in> A. \<exists>q\<in>B. g q = f x}" using xq(1,3) by blast
  then show "y \<in> f ` {x \<in> A. \<exists>q\<in>B. g q = f x}" using xq(2) by (rule rev_image_eqI)
qed

lemma img_filter_out:
  "g ` {x \<in> B. \<not> (\<exists>c\<in>A. g x = f c)} = g ` B - f ` A"
proof (intro set_eqI iffI)
  fix y assume "y \<in> g ` {x \<in> B. \<not> (\<exists>c\<in>A. g x = f c)}"
  then obtain x where x0: "x \<in> {x \<in> B. \<not> (\<exists>c\<in>A. g x = f c)}" "y = g x" by (rule imageE)
  then have x: "x \<in> B" "\<not> (\<exists>c\<in>A. g x = f c)" by simp_all
  have "y \<notin> f ` A"
  proof
    assume "y \<in> f ` A"
    then obtain c where c: "c \<in> A" "y = f c" by (rule imageE)
    have "g x = f c" using c(2) x0(2) by simp
    then show False using x(2) c(1) by blast
  qed
  moreover have "y \<in> g ` B" using x0(2) x(1) by (rule image_eqI)
  ultimately show "y \<in> g ` B - f ` A" by simp
next
  fix y assume "y \<in> g ` B - f ` A"
  then have "y \<in> g ` B" "y \<notin> f ` A" by simp_all
  then obtain x where x: "x \<in> B" "y = g x" by (elim imageE)
  have "\<not> (\<exists>c\<in>A. g x = f c)"
  proof
    assume "\<exists>c\<in>A. g x = f c"
    then obtain c where c: "c \<in> A" "g x = f c" by blast
    have "y = f c" using x(2) c(2) by simp
    then have "y \<in> f ` A" using c(1) by (rule image_eqI)
    then show False using \<open>y \<notin> f ` A\<close> by simp
  qed
  then have "x \<in> {x \<in> B. \<not> (\<exists>c\<in>A. g x = f c)}" using x(1) by simp
  then show "y \<in> g ` {x \<in> B. \<not> (\<exists>c\<in>A. g x = f c)}" using x(2) by (rule rev_image_eqI)
qed

lemma inSync_iff:
  "inSync cur D =
     ((\<lambda>c. requestedBreakpoint (breakpointInfo c)) ` set cur = requestedBreakpoint ` set D)"
  unfolding inSync_def list_all_iff list_ex_iff isEquivalent_iff
  by (rule img_eq_iff)

lemma inSync_same_requests:
  "map requestedBreakpoint D' = map requestedBreakpoint D \<Longrightarrow> inSync cur D' = inSync cur D"
proof -
  assume "map requestedBreakpoint D' = map requestedBreakpoint D"
  then have "set (map requestedBreakpoint D') = set (map requestedBreakpoint D)" by simp
  then have "requestedBreakpoint ` set D' = requestedBreakpoint ` set D" by (simp only: set_map)
  then show ?thesis by (simp only: inSync_iff)
qed

lemma keys_keep:
  "(\<lambda>c. requestedBreakpoint (breakpointInfo c))
     ` set (filter (\<lambda>c. list_ex (\<lambda>q. isEquivalent q (breakpointInfo c)) D) cur)
   = (\<lambda>c. requestedBreakpoint (breakpointInfo c)) ` set cur \<inter> requestedBreakpoint ` set D"
  unfolding list_ex_iff isEquivalent_iff set_filter by (rule img_filter_in)

lemma keys_toAdd:
  "requestedBreakpoint ` set (filter (\<lambda>d. \<not> list_ex (\<lambda>c. isEquivalent d (breakpointInfo c)) cur) D)
   = requestedBreakpoint ` set D - (\<lambda>c. requestedBreakpoint (breakpointInfo c)) ` set cur"
  unfolding list_ex_iff isEquivalent_iff set_filter by (rule img_filter_out)

lemma merge_inSync:
  assumes "keep = filter (\<lambda>c. list_ex (\<lambda>q. isEquivalent q (breakpointInfo c)) D) cur"
    and "map requestedBreakpoint toAdd
          = map requestedBreakpoint
              (filter (\<lambda>d. \<not> list_ex (\<lambda>c. isEquivalent d (breakpointInfo c)) cur) D)"
    and "map (\<lambda>c. requestedBreakpoint (breakpointInfo c)) added = map requestedBreakpoint toAdd"
  shows "inSync (keep @ added) D"
proof -
  have "set (map (\<lambda>c. requestedBreakpoint (breakpointInfo c)) added)
        = set (map requestedBreakpoint
              (filter (\<lambda>d. \<not> list_ex (\<lambda>c. isEquivalent d (breakpointInfo c)) cur) D))"
    using assms(2,3) by simp
  then have a: "(\<lambda>c. requestedBreakpoint (breakpointInfo c)) ` set added
        = requestedBreakpoint ` set D - (\<lambda>c. requestedBreakpoint (breakpointInfo c)) ` set cur"
    unfolding set_map keys_toAdd .
  have b: "(\<lambda>c. requestedBreakpoint (breakpointInfo c)) ` set keep
        = (\<lambda>c. requestedBreakpoint (breakpointInfo c)) ` set cur \<inter> requestedBreakpoint ` set D"
    unfolding assms(1) by (rule keys_keep)
  show ?thesis
    unfolding inSync_iff set_append image_Un a b by blast
qed

lemma added_keys:
  "map (\<lambda>c. requestedBreakpoint (breakpointInfo c)) (map snd (map (addedNewProtocol r) toAdd))
     = map requestedBreakpoint toAdd"
  "length results = length toAdd \<Longrightarrow>
   map (\<lambda>c. requestedBreakpoint (breakpointInfo c)) (map snd (map (addedOldProtocol r) (zip toAdd results)))
     = map requestedBreakpoint toAdd"
proof -
  show "map (\<lambda>c. requestedBreakpoint (breakpointInfo c)) (map snd (map (addedNewProtocol r) toAdd))
     = map requestedBreakpoint toAdd"
    by (simp add: addedNewProtocol_def verifyBreakpoint_def o_def)
  assume "length results = length toAdd"
  then have "map fst (zip toAdd results) = toAdd" by simp
  moreover have "map (\<lambda>c. requestedBreakpoint (breakpointInfo c)) (map snd (map (addedOldProtocol r) (zip toAdd results)))
     = map requestedBreakpoint (map fst (zip toAdd results))"
    by (simp add: addedOldProtocol_def verifyBreakpoint_def o_def Let_def)
  ultimately show "map (\<lambda>c. requestedBreakpoint (breakpointInfo c)) (map snd (map (addedOldProtocol r) (zip toAdd results)))
     = map requestedBreakpoint toAdd" by simp
qed

lemma resolved_keys:
  "map requestedBreakpoint (map (resolveActualLocation f ps) toAdd) = map requestedBreakpoint toAdd"
  by (simp add: resolveActualLocation_def o_def Let_def)

lemma settle_cases:
  assumes "suspended s = [(r, k)]" "step f (Settle r' out) s = Some s'"
  obtains (rejected) "r' = r" "out = Rejected" "s' = rejectRun r s"
  | (deletions) d keep where "r' = r" "k = AwaitDeletions d keep" "out = DeletionsResolved"
      "s' = afterDeletions r d keep s"
  | (positions) keep toAdd ps where "r' = r" "k = AwaitBreakpointPositions keep toAdd"
      "out = PositionsResolved ps" "s' = afterBreakpointPositions f r keep toAdd ps s"
  | (additions) keep toAdd where "r' = r" "k = AwaitAdditions keep toAdd" "out = AdditionsResolved"
      "newBreakpointProtocol s" "s' = afterAdditions r keep (map (addedNewProtocol r) toAdd) s"
  | (sourceAdditions) keep toAdd results where "r' = r" "k = AwaitAdditions keep toAdd"
      "out = SourceAdditionsResolved results" "\<not> newBreakpointProtocol s"
      "length results = length toAdd"
      "s' = afterAdditions r keep (map (addedOldProtocol r) (zip toAdd results)) s"
proof -
  have r: "r' = r" using assms by (auto simp: step_def split: if_splits)
  then have res: "resume f r k out s = Some s'" using assms by (simp add: step_def)
  show ?thesis
  proof (cases out)
    case Rejected
    then show ?thesis using res r rejected by simp
  next
    case DeletionsResolved
    then show ?thesis using res r deletions by (cases k) simp_all
  next
    case (PositionsResolved ps)
    then show ?thesis using res r positions by (cases k) simp_all
  next
    case AdditionsResolved
    then show ?thesis using res r additions by (cases k) (simp_all split: if_splits)
  next
    case (SourceAdditionsResolved results)
    then show ?thesis using res r sourceAdditions by (cases k) (simp_all split: if_splits)
  qed
qed

lemma syncBreakpoints_Some:
  assumes "desiredBreakpoints s = Some D"
  shows "currentBreakpoints (syncBreakpoints s) = currentBreakpoints s"
    and "isSyncingBreakpoints (syncBreakpoints s)"
    and "desiredBreakpoints (syncBreakpoints s) = None"
    and "queuedOnPausedThread (syncBreakpoints s) = queuedOnPausedThread s"
    and "newBreakpointProtocol (syncBreakpoints s) = newBreakpointProtocol s"
    and "suspended (syncBreakpoints s) = suspended s @
           [(nextRun s, AwaitDeletions (Some D)
              (filter (\<lambda>c. list_ex (\<lambda>q. isEquivalent q (breakpointInfo c)) D) (currentBreakpoints s)))]"
    and "trace (syncBreakpoints s) = trace s @ SyncStarted (nextRun s) (Some D) #
           map (DeleteCall (nextRun s))
             (filter (\<lambda>c. \<not> list_ex (\<lambda>q. isEquivalent q (breakpointInfo c)) D) (currentBreakpoints s))"
  using assms by (simp_all add: syncBreakpoints_def Let_def tr_defs)

lemma rejectRun_fields:
  "currentBreakpoints (rejectRun r s) = currentBreakpoints s"
  "isSyncingBreakpoints (rejectRun r s) = isSyncingBreakpoints s"
  "desiredBreakpoints (rejectRun r s) = desiredBreakpoints s"
  "queuedOnPausedThread (rejectRun r s) = queuedOnPausedThread s"
  "newBreakpointProtocol (rejectRun r s) = newBreakpointProtocol s"
  "suspended (rejectRun r s) = filter (\<lambda>(r', _). r' \<noteq> r) (suspended s)"
  "trace (rejectRun r s) = trace s @ [SyncRejected r]"
  by (simp_all add: tr_defs)

lemma afterDeletions_Some:
  "currentBreakpoints (afterDeletions r (Some D) keep s) = currentBreakpoints s"
  "isSyncingBreakpoints (afterDeletions r (Some D) keep s) = isSyncingBreakpoints s"
  "desiredBreakpoints (afterDeletions r (Some D) keep s) = desiredBreakpoints s"
  "queuedOnPausedThread (afterDeletions r (Some D) keep s) = queuedOnPausedThread s"
  "newBreakpointProtocol (afterDeletions r (Some D) keep s) = newBreakpointProtocol s"
  "suspended (afterDeletions r (Some D) keep s) = filter (\<lambda>(r', _). r' \<noteq> r) (suspended s) @
     [(r, (if newBreakpointProtocol s then AwaitBreakpointPositions else AwaitAdditions) keep
        (filter (\<lambda>d. \<not> list_ex (\<lambda>c. isEquivalent d (breakpointInfo c)) (currentBreakpoints s)) D))]"
  "trace (afterDeletions r (Some D) keep s) = trace s @ DeletionsCompleted r #
     (if newBreakpointProtocol s then [GetBreakpointPositionsCall r]
      else map (\<lambda>b. SourceSetBreakpointCall r (line (requestedBreakpoint b))
                  (column (requestedBreakpoint b)) (condition (requestedBreakpoint b)))
             (filter (\<lambda>d. \<not> list_ex (\<lambda>c. isEquivalent d (breakpointInfo c)) (currentBreakpoints s)) D))"
  by (simp_all add: afterDeletions_def Let_def tr_defs)

lemma afterBreakpointPositions_fields:
  "currentBreakpoints (afterBreakpointPositions f r keep toAdd ps s) = currentBreakpoints s"
  "isSyncingBreakpoints (afterBreakpointPositions f r keep toAdd ps s) = isSyncingBreakpoints s"
  "desiredBreakpoints (afterBreakpointPositions f r keep toAdd ps s) = desiredBreakpoints s"
  "queuedOnPausedThread (afterBreakpointPositions f r keep toAdd ps s) = queuedOnPausedThread s"
  "newBreakpointProtocol (afterBreakpointPositions f r keep toAdd ps s) = newBreakpointProtocol s"
  "suspended (afterBreakpointPositions f r keep toAdd ps s) = filter (\<lambda>(r', _). r' \<noteq> r) (suspended s) @
     [(r, AwaitAdditions keep (map (resolveActualLocation f ps) toAdd))]"
  "trace (afterBreakpointPositions f r keep toAdd ps s) = trace s @
     map (\<lambda>b. ThreadSetBreakpointCall r (actualLine b) (actualColumn b) (actorUrl (actor s))
                (condition (requestedBreakpoint b)) (logValue b))
       (map (resolveActualLocation f ps) toAdd)"
  by (simp_all add: afterBreakpointPositions_def Let_def tr_defs)

text \<open>The end of a run when nothing is pending, or under the legacy protocol.\<close>

lemma afterAdditions_fields:
  assumes "desiredBreakpoints s = None \<or> \<not> newBreakpointProtocol s"
  shows "currentBreakpoints (afterAdditions r keep added s) = keep @ map snd added"
    and "\<not> isSyncingBreakpoints (afterAdditions r keep added s)"
    and "desiredBreakpoints (afterAdditions r keep added s) = desiredBreakpoints s"
    and "queuedOnPausedThread (afterAdditions r keep added s)
          = (if desiredBreakpoints s = None then queuedOnPausedThread s
             else Suc (queuedOnPausedThread s))"
    and "newBreakpointProtocol (afterAdditions r keep added s) = newBreakpointProtocol s"
    and "suspended (afterAdditions r keep added s) = filter (\<lambda>(r', _). r' \<noteq> r) (suspended s)"
    and "trace (afterAdditions r keep added s) = trace s @ map fst added @ [SyncFinished r]"
  using assms
  by (auto simp add: afterAdditions_def finishSync_def checkAndSyncBreakpoints_def tr_defs)


lemma filter_single_run [simp]: "filter (\<lambda>(r', _). r' \<noteq> r) [(r, k)] = []"
  by simp

lemma resolved_keys_comp:
  "map (requestedBreakpoint \<circ> resolveActualLocation f ps) toAdd = map requestedBreakpoint toAdd"
  by (simp add: resolveActualLocation_def o_def Let_def)

lemma applying_start:
  assumes "suspended s = []" "desiredBreakpoints s = Some D" "queuedOnPausedThread s = q"
  shows "applying D q (syncBreakpoints s)"
  unfolding applying_def using assms by (simp add: syncBreakpoints_Some)

lemma applying_update:
  assumes "idle s"
  shows "applying D 0 (updateBreakpoints D s)"
proof (cases "newBreakpointProtocol s")
  case True
  then have "updateBreakpoints D s = syncBreakpoints (s\<lparr> desiredBreakpoints := Some D \<rparr>)"
    using assms by (simp add: updateBreakpoints_def checkAndSyncBreakpoints_def idle_def)
  moreover have "applying D 0 (syncBreakpoints (s\<lparr> desiredBreakpoints := Some D \<rparr>))"
    by (rule applying_start) (use assms in \<open>simp_all add: idle_def\<close>)
  ultimately show ?thesis by simp
next
  case False
  then show ?thesis using assms
    by (simp add: updateBreakpoints_def checkAndSyncBreakpoints_def idle_def applying_def)
qed

lemma applying_running:
  assumes "applying D q s" "suspended s \<noteq> []"
  obtains r k where "suspended s = [(r, k)]" "isSyncingBreakpoints s" "desiredBreakpoints s = None"
    "queuedOnPausedThread s = q" "runFor D (currentBreakpoints s) k"
  using assms unfolding applying_def by blast

lemma settle_enabled: "step f (Settle r out) s = Some s' \<Longrightarrow> suspended s \<noteq> []"
  by (auto simp: step_def split: option.splits)

lemma applying_settle:
  assumes "applying D q s" "step f (Settle r' out) s = Some s'"
  shows "applying D q s'"
proof -
  obtain r k where run: "suspended s = [(r, k)]" "isSyncingBreakpoints s"
      "desiredBreakpoints s = None" "queuedOnPausedThread s = q" "runFor D (currentBreakpoints s) k"
    using assms(1) settle_enabled [OF assms(2)] by (rule applying_running)
  from run(1) assms(2) show ?thesis
  proof (cases rule: settle_cases)
    case rejected
    then show ?thesis using run by (simp add: applying_def rejectRun_fields)
  next
    case (deletions d keep)
    then have d: "d = Some D" using run(5) by simp
    show ?thesis unfolding applying_def deletions(4) d
      using run deletions(2) d by (simp add: afterDeletions_Some)
  next
    case (positions keep toAdd ps)
    show ?thesis unfolding applying_def positions(4)
      using run positions(2) by (simp add: afterBreakpointPositions_fields resolved_keys_comp)
  next
    case (additions keep toAdd)
    have k: "keep = filter (\<lambda>c. list_ex (\<lambda>q. isEquivalent q (breakpointInfo c)) D) (currentBreakpoints s)"
      "map requestedBreakpoint toAdd = map requestedBreakpoint
         (filter (\<lambda>d. \<not> list_ex (\<lambda>c. isEquivalent d (breakpointInfo c)) (currentBreakpoints s)) D)"
      using run(5) additions(2) by simp_all
    have "inSync (keep @ map snd (map (addedNewProtocol r) toAdd)) D"
      by (rule merge_inSync [OF k added_keys(1)])
    then show ?thesis unfolding applying_def additions(5)
      using run by (simp add: afterAdditions_fields)
  next
    case (sourceAdditions keep toAdd results)
    have k: "keep = filter (\<lambda>c. list_ex (\<lambda>q. isEquivalent q (breakpointInfo c)) D) (currentBreakpoints s)"
      "map requestedBreakpoint toAdd = map requestedBreakpoint
         (filter (\<lambda>d. \<not> list_ex (\<lambda>c. isEquivalent d (breakpointInfo c)) (currentBreakpoints s)) D)"
      using run(5) sourceAdditions(2) by simp_all
    have "inSync (keep @ map snd (map (addedOldProtocol r) (zip toAdd results))) D"
      by (rule merge_inSync [OF k added_keys(2) [OF sourceAdditions(5)]])
    then show ?thesis unfolding applying_def sourceAdditions(6)
      using run by (simp add: afterAdditions_fields)
  qed
qed

lemma applying_run:
  assumes "applying D q s" "desiredBreakpoints s \<noteq> None" "step f RunOnPausedThread s = Some s'"
  shows "applying D q s'"
proof -
  have w: "suspended s = []" "desiredBreakpoints s = Some D" "queuedOnPausedThread s = Suc q"
    using assms(1,2) by (auto simp: applying_def)
  have "s' = syncBreakpoints (s\<lparr> queuedOnPausedThread := q \<rparr>)"
    using assms(3) w by (simp add: step_def canRunOnPausedThread_def)
  moreover have "applying D q (syncBreakpoints (s\<lparr> queuedOnPausedThread := q \<rparr>))"
    by (rule applying_start) (use w in simp_all)
  ultimately show ?thesis by simp
qed

lemma run_enabled:
  "step f RunOnPausedThread s = Some s' \<Longrightarrow> 0 < queuedOnPausedThread s \<and> suspended s = []"
  by (auto simp: step_def canRunOnPausedThread_def split: if_splits)

lemma applying_step:
  assumes "applying D 0 s" "\<not> isUpdate e" "step f e s = Some s'"
  shows "applying D 0 s'"
proof (cases e)
  case (UpdateBreakpoints bps)
  then show ?thesis using assms(2) by simp
next
  case RunOnPausedThread
  then have "0 < queuedOnPausedThread s" using assms(3) run_enabled by blast
  then have "desiredBreakpoints s \<noteq> None" using assms(1) by (auto simp: applying_def)
  then show ?thesis using assms(1,3) RunOnPausedThread applying_run by blast
next
  case (Settle r out)
  then show ?thesis using assms(1,3) applying_settle by blast
qed

lemma applying_exec:
  "applying D 0 s \<Longrightarrow> list_all (\<lambda>e. \<not> isUpdate e) es \<Longrightarrow> exec f es s = Some s'
   \<Longrightarrow> applying D 0 s'"
proof (induction es arbitrary: s)
  case Nil
  then show ?case by simp
next
  case (Cons e es)
  then obtain m where m: "step f e s = Some m" "exec f es m = Some s'"
    by (auto split: option.splits)
  have "applying D 0 m"
    using Cons.prems(2) by (intro applying_step [OF Cons.prems(1) _ m(1)]) simp
  then show ?case using Cons.IH Cons.prems(2) m(2) by simp
qed

lemma exec_update:
  "exec f (UpdateBreakpoints D # es) s = exec f es (updateBreakpoints D s)"
  by (simp add: step_def)

lemma first_run_syncs:
  assumes "idle s0" "list_all (\<lambda>e. \<not> isUpdate e) es"
    and "exec f (UpdateBreakpoints D # es) s0 = Some s1" "idle s1"
  shows "inSync (currentBreakpoints s1) D"
proof -
  have "applying D 0 s1"
    using applying_exec [OF applying_update [OF assms(1)] assms(2)] assms(3)
    by (simp only: exec_update)
  then show ?thesis using assms(4) by (auto simp: applying_def idle_def)
qed

lemma inSync_nothing_to_do:
  assumes "inSync cur D"
  shows "filter (\<lambda>c. list_ex (\<lambda>q. isEquivalent q (breakpointInfo c)) D) cur = cur"
    and "filter (\<lambda>c. \<not> list_ex (\<lambda>q. isEquivalent q (breakpointInfo c)) D) cur = []"
    and "filter (\<lambda>d. \<not> list_ex (\<lambda>c. isEquivalent d (breakpointInfo c)) cur) D = []"
  using assms by (simp_all add: inSync_def list_all_iff filter_empty_conv)

lemma quiet_start:
  assumes "suspended s = []" "desiredBreakpoints s = Some D" "queuedOnPausedThread s = 0"
    "inSync (currentBreakpoints s) D"
  shows "quiet D (filter isRemoteChange (trace s), currentBreakpoints s) (syncBreakpoints s)"
  unfolding quiet_def
  using applying_start [OF assms(1-3)] assms(2,4)
  by (simp add: syncBreakpoints_Some inSync_nothing_to_do)

lemma quiet_update:
  assumes "idle s" "inSync (currentBreakpoints s) D"
  shows "quiet D (filter isRemoteChange (trace s), currentBreakpoints s) (updateBreakpoints D s)"
proof (cases "newBreakpointProtocol s")
  case True
  then have "updateBreakpoints D s = syncBreakpoints (s\<lparr> desiredBreakpoints := Some D \<rparr>)"
    using assms by (simp add: updateBreakpoints_def checkAndSyncBreakpoints_def idle_def)
  moreover have "quiet D (filter isRemoteChange (trace (s\<lparr> desiredBreakpoints := Some D \<rparr>)),
                     currentBreakpoints (s\<lparr> desiredBreakpoints := Some D \<rparr>))
                   (syncBreakpoints (s\<lparr> desiredBreakpoints := Some D \<rparr>))"
    by (rule quiet_start) (use assms in \<open>simp_all add: idle_def\<close>)
  ultimately show ?thesis by simp
next
  case False
  then show ?thesis using assms applying_update [OF assms(1), of D]
    by (simp add: quiet_def updateBreakpoints_def checkAndSyncBreakpoints_def idle_def)
qed

lemma quiet_settle:
  assumes "quiet D ops s" "step f (Settle r' out) s = Some s'"
  shows "quiet D ops s'"
proof -
  have ap: "applying D 0 s" and sy: "inSync (currentBreakpoints s) D"
    and tr: "filter isRemoteChange (trace s) = fst ops" and cu: "currentBreakpoints s = snd ops"
    using assms(1) unfolding quiet_def by blast+
  have ap': "applying D 0 s'" using ap assms(2) by (rule applying_settle)
  obtain r k where run: "suspended s = [(r, k)]" "isSyncingBreakpoints s"
      "desiredBreakpoints s = None" "queuedOnPausedThread s = 0" "runFor D (currentBreakpoints s) k"
    using ap settle_enabled [OF assms(2)] by (rule applying_running)
  have "currentBreakpoints s' = currentBreakpoints s \<and> filter isRemoteChange (trace s') = fst ops"
    using run(1) assms(2)
  proof (cases rule: settle_cases)
    case rejected
    then show ?thesis using tr by (simp add: rejectRun_fields)
  next
    case (deletions d keep)
    then have d: "d = Some D" using run(5) by simp
    show ?thesis unfolding deletions(4) d
      using tr sy by (simp add: afterDeletions_Some inSync_nothing_to_do)
  next
    case (positions keep toAdd ps)
    then have "map requestedBreakpoint toAdd = []"
      using run(5) sy by (simp add: inSync_nothing_to_do)
    then have "toAdd = []" by simp
    then show ?thesis unfolding positions(4)
      using tr by (simp add: afterBreakpointPositions_fields)
  next
    case (additions keep toAdd)
    then have "map requestedBreakpoint toAdd = []" "keep = currentBreakpoints s"
      using run(5) sy by (simp_all add: inSync_nothing_to_do)
    then have "toAdd = []" "keep = currentBreakpoints s" by simp_all
    then show ?thesis unfolding additions(5)
      using tr run(3) by (simp add: afterAdditions_fields)
  next
    case (sourceAdditions keep toAdd results)
    then have "map requestedBreakpoint toAdd = []" "keep = currentBreakpoints s"
      using run(5) sy by (simp_all add: inSync_nothing_to_do)
    then have "toAdd = []" "keep = currentBreakpoints s" by simp_all
    then show ?thesis unfolding sourceAdditions(6)
      using tr run(3) by (simp add: afterAdditions_fields)
  qed
  then show ?thesis using ap' sy cu by (simp add: quiet_def)
qed

lemma quiet_step:
  assumes "quiet D ops s" "\<not> isUpdate e" "step f e s = Some s'"
  shows "quiet D ops s'"
proof (cases e)
  case (UpdateBreakpoints bps)
  then show ?thesis using assms(2) by simp
next
  case RunOnPausedThread
  then have en: "0 < queuedOnPausedThread s" "suspended s = []"
    using assms(3) run_enabled by blast+
  then have w: "desiredBreakpoints s = Some D" "queuedOnPausedThread s = Suc 0"
    using assms(1) by (auto simp: quiet_def applying_def)
  have s': "s' = syncBreakpoints (s\<lparr> queuedOnPausedThread := 0 \<rparr>)"
    using assms(3) RunOnPausedThread en w by (simp add: step_def canRunOnPausedThread_def)
  have sy: "inSync (currentBreakpoints s) D" using assms(1) unfolding quiet_def by blast
  have "quiet D (filter isRemoteChange (trace (s\<lparr> queuedOnPausedThread := 0 \<rparr>)),
            currentBreakpoints (s\<lparr> queuedOnPausedThread := 0 \<rparr>))
          (syncBreakpoints (s\<lparr> queuedOnPausedThread := 0 \<rparr>))"
    by (rule quiet_start) (use en w sy in simp_all)
  then have q: "quiet D (filter isRemoteChange (trace s), currentBreakpoints s) s'"
    using s' by simp
  have "filter isRemoteChange (trace s) = fst ops" "currentBreakpoints s = snd ops"
    using assms(1) unfolding quiet_def by blast+
  then have "(filter isRemoteChange (trace s), currentBreakpoints s) = ops"
    by (simp add: prod_eq_iff)
  then show ?thesis using q by simp
next
  case (Settle r out)
  then show ?thesis using assms(1,3) quiet_settle by blast
qed

lemma quiet_exec:
  "quiet D ops s \<Longrightarrow> list_all (\<lambda>e. \<not> isUpdate e) es \<Longrightarrow> exec f es s = Some s'
   \<Longrightarrow> quiet D ops s'"
proof (induction es arbitrary: s)
  case Nil
  then show ?case by simp
next
  case (Cons e es)
  then obtain m where m: "step f e s = Some m" "exec f es m = Some s'"
    by (auto split: option.splits)
  have "quiet D ops m"
    using Cons.prems(2) by (intro quiet_step [OF Cons.prems(1) _ m(1)]) simp
  then show ?case using Cons.IH Cons.prems(2) m(2) by simp
qed

text \<open>
  C4. Idempotence. Submit a desired set to an idle adapter and let its reconciliation
  complete (the adapter is idle again; no other set is submitted meanwhile). Then the
  installed set agrees with the desired set, and submitting the same requests again makes
  no deletion and no addition, however the second run proceeds, and leaves the installed
  set as it is.
\<close>

theorem reconciliation_idempotent:
  assumes "idle s0"
    and "list_all (\<lambda>e. \<not> isUpdate e) es1"
    and "exec f (UpdateBreakpoints D # es1) s0 = Some s1"
    and "idle s1"
    and "map requestedBreakpoint D' = map requestedBreakpoint D"
    and "list_all (\<lambda>e. \<not> isUpdate e) es2"
    and "exec f (UpdateBreakpoints D' # es2) s1 = Some s2"
  shows "filter isRemoteChange (trace s2) = filter isRemoteChange (trace s1)
         \<and> currentBreakpoints s2 = currentBreakpoints s1
         \<and> inSync (currentBreakpoints s1) D"
proof -
  have sy: "inSync (currentBreakpoints s1) D"
    using assms(1-4) by (rule first_run_syncs)
  then have sy': "inSync (currentBreakpoints s1) D'"
    using inSync_same_requests [OF assms(5)] by simp
  have q: "quiet D' (filter isRemoteChange (trace s1), currentBreakpoints s1) (updateBreakpoints D' s1)"
    using assms(4) sy' by (rule quiet_update)
  have "quiet D' (filter isRemoteChange (trace s1), currentBreakpoints s1) s2"
    using quiet_exec [OF q assms(6)] assms(7) by (simp only: exec_update)
  then have "filter isRemoteChange (trace s2) = filter isRemoteChange (trace s1)
             \<and> currentBreakpoints s2 = currentBreakpoints s1"
    by (simp add: quiet_def)
  then show ?thesis using sy by simp
qed

lemma observed_append: "observed (xs @ ys) = observed xs @ observed ys"
  by (induction xs rule: observed.induct) simp_all


lemma observed_drop:
  "n \<le> length tr \<Longrightarrow> observed (drop n (tr @ t)) = observed (drop n tr) @ observed t"
  by (simp add: observed_append)

lemma afterDeletions_None:
  "currentBreakpoints (afterDeletions r None keep s) = currentBreakpoints s"
  "isSyncingBreakpoints (afterDeletions r None keep s) = isSyncingBreakpoints s"
  "desiredBreakpoints (afterDeletions r None keep s) = desiredBreakpoints s"
  "queuedOnPausedThread (afterDeletions r None keep s) = queuedOnPausedThread s"
  "newBreakpointProtocol (afterDeletions r None keep s) = newBreakpointProtocol s"
  "suspended (afterDeletions r None keep s) = filter (\<lambda>(r', _). r' \<noteq> r) (suspended s)"
  "trace (afterDeletions r None keep s) = trace s @ [DeletionsCompleted r, SyncRejected r]"
  by (simp_all add: afterDeletions_def Let_def tr_defs)

lemma syncBreakpoints_None:
  assumes "desiredBreakpoints s = None"
  shows "currentBreakpoints (syncBreakpoints s) = currentBreakpoints s"
    and "isSyncingBreakpoints (syncBreakpoints s)"
    and "desiredBreakpoints (syncBreakpoints s) = None"
    and "queuedOnPausedThread (syncBreakpoints s) = queuedOnPausedThread s"
    and "newBreakpointProtocol (syncBreakpoints s) = newBreakpointProtocol s"
    and "suspended (syncBreakpoints s) =
           (if currentBreakpoints s = [] then suspended s @ [(nextRun s, AwaitDeletions None [])]
            else suspended s)"
    and "trace (syncBreakpoints s) = trace s @
           (if currentBreakpoints s = [] then [SyncStarted (nextRun s) None]
            else [SyncStarted (nextRun s) None, SyncRejected (nextRun s)])"
  using assms by (simp_all add: syncBreakpoints_def Let_def tr_defs)


lemma trace_grows:
  "trace s' = trace s @ t \<Longrightarrow> n \<le> length (trace s) \<Longrightarrow> n \<le> length (trace s')"
  by simp

lemma protocol_syncBreakpoints [simp]:
  "newBreakpointProtocol (syncBreakpoints s) = newBreakpointProtocol s"
  by (cases "desiredBreakpoints s") (simp_all add: syncBreakpoints_Some syncBreakpoints_None)


lemma protocol_checkAndSync [simp]:
  "newBreakpointProtocol (checkAndSyncBreakpoints s) = newBreakpointProtocol s"
  by (simp add: checkAndSyncBreakpoints_def)

lemma protocol_afterAdditions [simp]:
  "newBreakpointProtocol (afterAdditions r keep added s) = newBreakpointProtocol s"
  by (simp add: afterAdditions_def finishSync_def tr_defs)

lemma protocol_afterDeletions [simp]:
  "newBreakpointProtocol (afterDeletions r d keep s) = newBreakpointProtocol s"
  by (cases d) (simp_all add: afterDeletions_None afterDeletions_Some)



















lemma idle_example: "idle (exampleAdapter np)"
  by (simp add: idle_def exampleAdapter_def newSourceAdapter_def)





lemma first_submission_run:
  "exec exampleFindNext
     [UpdateBreakpoints [exampleBreakpoint 5 None],
      Settle 0 DeletionsResolved, Settle 0 (PositionsResolved []), Settle 0 AdditionsResolved]
     (exampleAdapter True)
   = Some (exampleSynced [exampleBreakpoint 5 None] 1
       [SyncStarted 0 (Some [exampleBreakpoint 5 None]),
        DeletionsCompleted 0, GetBreakpointPositionsCall 0,
        ThreadSetBreakpointCall 0 (Some 5) (Some 0) (Some ''http://localhost/js/app.js'') None None,
        VerifyBreakpointCall 0
          ((exampleBreakpoint 5 None)\<lparr> actualLine := Some 5, actualColumn := Some 0 \<rparr>)
          (Some 5) (Some 0),
        SyncFinished 0])"
  by (simp add: machine_defs example_defs exampleSynced_def)

lemma second_submission_run:
  "exec exampleFindNext
     [UpdateBreakpoints [exampleBreakpoint 5 None],
      Settle 1 DeletionsResolved, Settle 1 (PositionsResolved []), Settle 1 AdditionsResolved]
     (exampleSynced [exampleBreakpoint 5 None] 1
       [SyncStarted 0 (Some [exampleBreakpoint 5 None]),
        DeletionsCompleted 0, GetBreakpointPositionsCall 0,
        ThreadSetBreakpointCall 0 (Some 5) (Some 0) (Some ''http://localhost/js/app.js'') None None,
        VerifyBreakpointCall 0
          ((exampleBreakpoint 5 None)\<lparr> actualLine := Some 5, actualColumn := Some 0 \<rparr>)
          (Some 5) (Some 0),
        SyncFinished 0])
   = Some (exampleSynced [exampleBreakpoint 5 None] 2
       [SyncStarted 0 (Some [exampleBreakpoint 5 None]),
        DeletionsCompleted 0, GetBreakpointPositionsCall 0,
        ThreadSetBreakpointCall 0 (Some 5) (Some 0) (Some ''http://localhost/js/app.js'') None None,
        VerifyBreakpointCall 0
          ((exampleBreakpoint 5 None)\<lparr> actualLine := Some 5, actualColumn := Some 0 \<rparr>)
          (Some 5) (Some 0),
        SyncFinished 0,
        SyncStarted 1 (Some [exampleBreakpoint 5 None]),
        DeletionsCompleted 1, GetBreakpointPositionsCall 1, SyncFinished 1])"
  by (simp add: machine_defs example_defs exampleSynced_def)

theorem reconciliation_idempotent_witness:
  "idle (exampleAdapter True)
   \<and> idle (exampleSynced [exampleBreakpoint 5 None] 1
       [SyncStarted 0 (Some [exampleBreakpoint 5 None]),
        DeletionsCompleted 0, GetBreakpointPositionsCall 0,
        ThreadSetBreakpointCall 0 (Some 5) (Some 0) (Some ''http://localhost/js/app.js'') None None,
        VerifyBreakpointCall 0
          ((exampleBreakpoint 5 None)\<lparr> actualLine := Some 5, actualColumn := Some 0 \<rparr>)
          (Some 5) (Some 0),
        SyncFinished 0])
   \<and> map_option (\<lambda>s. (filter isRemoteChange (trace s), currentBreakpoints s))
       (exec exampleFindNext
         [UpdateBreakpoints [exampleBreakpoint 5 None],
          Settle 1 DeletionsResolved, Settle 1 (PositionsResolved []), Settle 1 AdditionsResolved]
         (exampleSynced [exampleBreakpoint 5 None] 1
           [SyncStarted 0 (Some [exampleBreakpoint 5 None]),
            DeletionsCompleted 0, GetBreakpointPositionsCall 0,
            ThreadSetBreakpointCall 0 (Some 5) (Some 0) (Some ''http://localhost/js/app.js'') None None,
            VerifyBreakpointCall 0
              ((exampleBreakpoint 5 None)\<lparr> actualLine := Some 5, actualColumn := Some 0 \<rparr>)
              (Some 5) (Some 0),
            SyncFinished 0]))
     = Some ([ThreadSetBreakpointCall 0 (Some 5) (Some 0) (Some ''http://localhost/js/app.js'') None None],
             [exampleInstalled 5 None])"
proof -
  have es: "list_all (\<lambda>e. \<not> isUpdate e)
     [Settle 0 DeletionsResolved, Settle 0 (PositionsResolved []), Settle 0 AdditionsResolved]"
    "list_all (\<lambda>e. \<not> isUpdate e)
     [Settle 1 DeletionsResolved, Settle 1 (PositionsResolved []), Settle 1 AdditionsResolved]"
    by simp_all
  have i1: "idle (exampleSynced [exampleBreakpoint 5 None] 1 tr)" for tr
    by (simp add: idle_def exampleSynced_def exampleAdapter_def newSourceAdapter_def)
  show ?thesis
    using reconciliation_idempotent [OF idle_example es(1) first_submission_run i1 refl es(2)
        second_submission_run]
      second_submission_run idle_example [of True] i1
    by (simp add: exampleSynced_def example_defs del: exec.simps)
qed

section \<open>Equivalence keys of the installed set\<close>

lemma keys_partition:
  assumes "distinct (installedKeys cur)" "distinct (map requestedBreakpoint D)"
  shows "distinct (installedKeys (filter (\<lambda>c. list_ex (\<lambda>q. isEquivalent q (breakpointInfo c)) D) cur)
           @ map requestedBreakpoint
               (filter (\<lambda>d. \<not> list_ex (\<lambda>c. isEquivalent d (breakpointInfo c)) cur) D))"
proof -
  have a: "distinct (installedKeys (filter (\<lambda>c. list_ex (\<lambda>q. isEquivalent q (breakpointInfo c)) D) cur))"
    using assms(1) unfolding installedKeys_def by (rule distinct_map_filter)
  have b: "distinct (map requestedBreakpoint
               (filter (\<lambda>d. \<not> list_ex (\<lambda>c. isEquivalent d (breakpointInfo c)) cur) D))"
    using assms(2) by (rule distinct_map_filter)
  have c: "set (installedKeys (filter (\<lambda>c. list_ex (\<lambda>q. isEquivalent q (breakpointInfo c)) D) cur))
           \<inter> set (map requestedBreakpoint
               (filter (\<lambda>d. \<not> list_ex (\<lambda>c. isEquivalent d (breakpointInfo c)) cur) D)) = {}"
    unfolding installedKeys_def set_map keys_keep keys_toAdd by blast
  show ?thesis using a b c distinct_append by blast
qed

lemma keysInv_syncBreakpoints:
  assumes "keysInv s" "suspended s = []"
  shows "keysInv (syncBreakpoints s)"
proof (cases "desiredBreakpoints s")
  case None
  then show ?thesis using assms inv1_syncBreakpoints [OF assms(2)]
    by (simp add: keysInv_def syncBreakpoints_None)
next
  case (Some D)
  then show ?thesis using assms inv1_syncBreakpoints [OF assms(2)]
    by (simp add: keysInv_def syncBreakpoints_Some)
qed

lemma keysInv_checkAndSync:
  assumes "keysInv s" "\<not> isSyncingBreakpoints s \<longrightarrow> suspended s = []"
  shows "keysInv (checkAndSyncBreakpoints s)"
proof -
  have "keysInv (s\<lparr> queuedOnPausedThread := queuedOnPausedThread s + 1 \<rparr>)"
    using assms(1) by (simp add: keysInv_def inv1_def)
  then show ?thesis using assms by (auto simp: checkAndSyncBreakpoints_def keysInv_syncBreakpoints)
qed

lemma keysInv_update:
  assumes "keysInv s" "distinct (map requestedBreakpoint bps)"
  shows "keysInv (updateBreakpoints bps s)"
proof -
  have "keysInv (s\<lparr> desiredBreakpoints := Some bps \<rparr>)"
    using assms by (simp add: keysInv_def inv1_def)
  then show ?thesis unfolding updateBreakpoints_def
    by (rule keysInv_checkAndSync) (use assms(1) in \<open>auto simp: keysInv_def inv1_def\<close>)
qed

lemma keysInv_finish:
  assumes "keysInv s" "suspended s = [(r, k)]"
    and "distinct (installedKeys (keep @ map snd added))"
  shows "keysInv (afterAdditions r keep added s)"
proof -
  let ?m = "emit [SyncFinished r]
             (settled r (emit (map fst added) s
                \<lparr> currentBreakpoints := keep @ map snd added, isSyncingBreakpoints := False \<rparr>))"
  have "keysInv ?m"
    using assms by (simp add: keysInv_def inv1_def tr_defs)
  moreover have "suspended ?m = []" using assms(2) by (simp add: tr_defs)
  ultimately have "keysInv (checkAndSyncBreakpoints ?m)" by (simp add: keysInv_checkAndSync)
  then show ?thesis by (simp add: afterAdditions_def finishSync_def)
qed

lemma installedKeys_append: "installedKeys (xs @ ys) = installedKeys xs @ installedKeys ys"
  by (simp add: installedKeys_def)

lemma keysInv_settle:
  assumes "keysInv s" "step f (Settle r' out) s = Some s'"
  shows "keysInv s'"
proof -
  have i1: "inv1 s" and dc: "distinct (installedKeys (currentBreakpoints s))"
    and dd: "\<forall>D. desiredBreakpoints s = Some D \<longrightarrow> distinct (map requestedBreakpoint D)"
    using assms(1) unfolding keysInv_def by blast+
  have i1': "inv1 s'" using i1 assms(2) by (rule inv1_step)
  obtain k where k: "map_of (suspended s) r' = Some k"
    using assms(2) by (auto simp: step_def split: option.splits)
  have sus: "suspended s = [(r', k)]"
    using i1 k by (auto simp: inv1_def intro: suspended_single)
  have rk: "runKeys (currentBreakpoints s) k" using assms(1) sus by (simp add: keysInv_def)
  from sus assms(2) show ?thesis
  proof (cases rule: settle_cases)
    case rejected
    then show ?thesis using i1' dc dd sus by (simp add: keysInv_def rejectRun_fields)
  next
    case (deletions d keep)
    show ?thesis
    proof (cases d)
      case None
      then show ?thesis using deletions i1' dc dd sus
        by (simp add: keysInv_def afterDeletions_None)
    next
      case (Some D)
      have "distinct (installedKeys keep @ map requestedBreakpoint
               (filter (\<lambda>d. \<not> list_ex (\<lambda>c. isEquivalent d (breakpointInfo c)) (currentBreakpoints s)) D))"
        using rk deletions(2) Some keys_partition [OF dc, of D] by simp
      then show ?thesis using deletions Some i1' dc dd sus
        by (simp add: keysInv_def afterDeletions_Some)
    qed
  next
    case (positions keep toAdd ps)
    then show ?thesis using i1' dc dd sus rk
      by (simp add: keysInv_def afterBreakpointPositions_fields resolved_keys_comp)
  next
    case (additions keep toAdd)
    have e: "installedKeys (map snd (map (addedNewProtocol r') toAdd)) = map requestedBreakpoint toAdd"
      unfolding installedKeys_def by (rule added_keys(1))
    have "distinct (installedKeys keep @ map requestedBreakpoint toAdd)"
      using rk additions(2) by simp
    then have "distinct (installedKeys (keep @ map snd (map (addedNewProtocol r') toAdd)))"
      by (simp only: installedKeys_append e)
    then show ?thesis unfolding additions(5) using assms(1) sus by (rule keysInv_finish [rotated 2])
  next
    case (sourceAdditions keep toAdd results)
    have e: "installedKeys (map snd (map (addedOldProtocol r') (zip toAdd results)))
               = map requestedBreakpoint toAdd"
      unfolding installedKeys_def using sourceAdditions(5) by (rule added_keys(2))
    have "distinct (installedKeys keep @ map requestedBreakpoint toAdd)"
      using rk sourceAdditions(2) by simp
    then have "distinct (installedKeys (keep @ map snd (map (addedOldProtocol r') (zip toAdd results))))"
      by (simp only: installedKeys_append e)
    then show ?thesis unfolding sourceAdditions(6) using assms(1) sus
      by (rule keysInv_finish [rotated 2])
  qed
qed

lemma keysInv_step:
  assumes "keysInv s" "distinctRequests e" "step f e s = Some s'"
  shows "keysInv s'"
proof (cases e)
  case (UpdateBreakpoints bps)
  then show ?thesis using assms by (auto simp: step_def keysInv_update)
next
  case RunOnPausedThread
  have "keysInv (s\<lparr> queuedOnPausedThread := queuedOnPausedThread s - 1 \<rparr>)"
    using assms(1) by (simp add: keysInv_def inv1_def)
  then show ?thesis using assms(3) RunOnPausedThread
    by (auto simp: step_def canRunOnPausedThread_def keysInv_syncBreakpoints split: if_splits)
next
  case (Settle r out)
  then show ?thesis using assms(1,3) keysInv_settle by blast
qed

lemma keysInv_exec:
  "keysInv s \<Longrightarrow> list_all distinctRequests es \<Longrightarrow> exec f es s = Some s' \<Longrightarrow> keysInv s'"
proof (induction es arbitrary: s)
  case Nil
  then show ?case by simp
next
  case (Cons e es)
  then obtain m where m: "step f e s = Some m" "exec f es m = Some s'"
    by (auto split: option.splits)
  have "keysInv m"
    using Cons.prems(2) by (intro keysInv_step [OF Cons.prems(1) _ m(1)]) simp
  then show ?case using Cons.IH Cons.prems(2) m(2) by simp
qed

lemma keysInv_new: "keysInv (newSourceAdapter a np)"
  by (simp add: keysInv_def inv1_def installedKeys_def newSourceAdapter_def)

lemma stale_eq:
  "filter (\<lambda>c. \<not> list_ex (\<lambda>q. isEquivalent q (breakpointInfo c)) D) cur = staleInstalled D cur"
  by (simp add: staleInstalled_def isEquivalent_iff)

lemma missing_eq:
  "filter (\<lambda>d. \<not> list_ex (\<lambda>c. isEquivalent d (breakpointInfo c)) cur) D = missingDesired D cur"
  by (simp add: missingDesired_def isEquivalent_iff)

lemma actor_syncBreakpoints: "actor (syncBreakpoints s) = actor s"
  by (cases "desiredBreakpoints s") (simp_all add: syncBreakpoints_def Let_def tr_defs)

lemma actor_afterDeletions: "actor (afterDeletions r (Some D) keep s) = actor s"
  by (simp add: afterDeletions_def Let_def tr_defs)

lemma run_new:
  assumes "idle s" "newBreakpointProtocol s"
  shows "\<exists>s'. exec f (startRun True D (nextRun s) ps) s = Some s'
     \<and> trace s' = trace s @ SyncStarted (nextRun s) (Some D)
         # map (DeleteCall (nextRun s)) (staleInstalled D (currentBreakpoints s))
         @ DeletionsCompleted (nextRun s)
         # addCalls f s (nextRun s) ps (missingDesired D (currentBreakpoints s))
     \<and> currentBreakpoints s' = currentBreakpoints s"
proof -
  let ?r = "nextRun s"
  let ?s0 = "s\<lparr> desiredBreakpoints := Some D \<rparr>"
  let ?s1 = "syncBreakpoints ?s0"
  let ?keep = "filter (\<lambda>c. list_ex (\<lambda>q. isEquivalent q (breakpointInfo c)) D) (currentBreakpoints s)"
  let ?s2 = "afterDeletions ?r (Some D) ?keep ?s1"
  let ?add = "missingDesired D (currentBreakpoints s)"
  let ?s3 = "afterBreakpointPositions f ?r ?keep ?add ps ?s2"
  have d0: "desiredBreakpoints ?s0 = Some D" by simp
  note f1 = syncBreakpoints_Some [OF d0]
  have u: "step f (UpdateBreakpoints D) s = Some ?s1"
    using assms by (simp add: step_def updateBreakpoints_def checkAndSyncBreakpoints_def idle_def)
  have sus1: "suspended ?s1 = [(?r, AwaitDeletions (Some D) ?keep)]"
    using assms(1) by (simp add: f1 idle_def)
  have a: "step f (Settle ?r DeletionsResolved) ?s1 = Some ?s2"
    by (simp add: step_def sus1)
  have sus2: "suspended ?s2 = [(?r, AwaitBreakpointPositions ?keep ?add)]"
    using assms(2) by (simp add: afterDeletions_Some sus1 f1 missing_eq)
  have b: "step f (Settle ?r (PositionsResolved ps)) ?s2 = Some ?s3"
    by (simp add: step_def sus2)
  have e: "exec f (startRun True D ?r ps) s = Some ?s3"
    by (simp add: startRun_def u a b)
  have t: "trace ?s3 = trace s @ SyncStarted ?r (Some D)
         # map (DeleteCall ?r) (staleInstalled D (currentBreakpoints s))
         @ DeletionsCompleted ?r # addCalls f s ?r ps ?add"
    using assms(2)
    by (simp add: afterBreakpointPositions_fields afterDeletions_Some f1 stale_eq addCalls_def
          actor_afterDeletions actor_syncBreakpoints)
  have c: "currentBreakpoints ?s3 = currentBreakpoints s"
    by (simp add: afterBreakpointPositions_fields afterDeletions_Some f1)
  show ?thesis using e t c by blast
qed

lemma run_legacy:
  assumes "idle s" "\<not> newBreakpointProtocol s"
  shows "\<exists>s'. exec f (startRun False D (nextRun s) ps) s = Some s'
     \<and> trace s' = trace s @ SyncStarted (nextRun s) (Some D)
         # map (DeleteCall (nextRun s)) (staleInstalled D (currentBreakpoints s))
         @ DeletionsCompleted (nextRun s)
         # addCalls f s (nextRun s) ps (missingDesired D (currentBreakpoints s))
     \<and> currentBreakpoints s' = currentBreakpoints s"
proof -
  let ?r = "nextRun s"
  let ?q = "s\<lparr> desiredBreakpoints := Some D, queuedOnPausedThread := Suc 0 \<rparr>"
  let ?s0 = "s\<lparr> desiredBreakpoints := Some D, queuedOnPausedThread := 0 \<rparr>"
  let ?s1 = "syncBreakpoints ?s0"
  let ?keep = "filter (\<lambda>c. list_ex (\<lambda>q. isEquivalent q (breakpointInfo c)) D) (currentBreakpoints s)"
  let ?s2 = "afterDeletions ?r (Some D) ?keep ?s1"
  let ?add = "missingDesired D (currentBreakpoints s)"
  have d0: "desiredBreakpoints ?s0 = Some D" by simp
  note f1 = syncBreakpoints_Some [OF d0]
  have u: "step f (UpdateBreakpoints D) s = Some ?q"
    using assms by (simp add: step_def updateBreakpoints_def checkAndSyncBreakpoints_def idle_def)
  have p: "step f RunOnPausedThread ?q = Some ?s1"
    using assms(1) by (simp add: step_def canRunOnPausedThread_def idle_def)
  have sus1: "suspended ?s1 = [(?r, AwaitDeletions (Some D) ?keep)]"
    using assms(1) by (simp add: f1 idle_def)
  have a: "step f (Settle ?r DeletionsResolved) ?s1 = Some ?s2"
    by (simp add: step_def sus1)
  have e: "exec f (startRun False D ?r ps) s = Some ?s2"
    by (simp add: startRun_def u p a)
  have t: "trace ?s2 = trace s @ SyncStarted ?r (Some D)
         # map (DeleteCall ?r) (staleInstalled D (currentBreakpoints s))
         @ DeletionsCompleted ?r # addCalls f s ?r ps ?add"
    using assms(2)
    by (simp add: afterDeletions_Some f1 stale_eq missing_eq addCalls_def)
  have c: "currentBreakpoints ?s2 = currentBreakpoints s"
    by (simp add: afterDeletions_Some f1)
  show ?thesis using e t c by blast
qed

text \<open>
  C5 (amended). Equivalence keys. When no submitted desired set names the same request
  (line, column, condition and log message together) twice, then in every state the adapter
  reaches, also while a run waits at an await, the requests of the installed breakpoints
  are pairwise different. And a run never passes over a changed request: submit D to the
  idle adapter and let the run proceed until its additions are issued; it has then asked to
  delete exactly the installed breakpoints whose request is not in D, has waited for these
  deletions, and has asked to add exactly the breakpoints of D whose request is not
  installed. A request that differs in one field is a different request, so the installed
  breakpoint is deleted and the changed one is added. The installed set is replaced only
  when the run finishes.
\<close>

theorem installed_keys_unique:
  assumes "list_all distinctRequests es"
    and "exec f es (newSourceAdapter a np) = Some s"
  shows "distinct (installedKeys (currentBreakpoints s))
     \<and> (idle s \<longrightarrow>
          (\<exists>s'. exec f (startRun (newBreakpointProtocol s) D (nextRun s) ps) s = Some s'
             \<and> trace s' = trace s @ SyncStarted (nextRun s) (Some D)
                 # map (DeleteCall (nextRun s)) (staleInstalled D (currentBreakpoints s))
                 @ DeletionsCompleted (nextRun s)
                 # addCalls f s (nextRun s) ps (missingDesired D (currentBreakpoints s))
             \<and> currentBreakpoints s' = currentBreakpoints s))"
proof -
  have "keysInv s"
    using keysInv_new assms(1,2) by (rule keysInv_exec)
  then have "distinct (installedKeys (currentBreakpoints s))" by (simp add: keysInv_def)
  moreover have "idle s \<longrightarrow>
          (\<exists>s'. exec f (startRun (newBreakpointProtocol s) D (nextRun s) ps) s = Some s'
             \<and> trace s' = trace s @ SyncStarted (nextRun s) (Some D)
                 # map (DeleteCall (nextRun s)) (staleInstalled D (currentBreakpoints s))
                 @ DeletionsCompleted (nextRun s)
                 # addCalls f s (nextRun s) ps (missingDesired D (currentBreakpoints s))
             \<and> currentBreakpoints s' = currentBreakpoints s)"
  proof (cases "newBreakpointProtocol s")
    case True
    then show ?thesis using run_new [of s f D ps] by simp
  next
    case False
    then show ?thesis using run_legacy [of s f D ps] by simp
  qed
  ultimately show ?thesis by blast
qed

lemma changed_condition_first_run:
  "exec exampleFindNext
     [UpdateBreakpoints [exampleBreakpoint 10 (Some ''x>1'')],
      Settle 0 DeletionsResolved, Settle 0 (PositionsResolved []), Settle 0 AdditionsResolved]
     (newSourceAdapter (exampleActor (Some ''http://localhost/js/app.js'') ''server1.conn0.source27'') True)
   = Some (exampleSynced [exampleBreakpoint 10 (Some ''x>1'')] 1
       [SyncStarted 0 (Some [exampleBreakpoint 10 (Some ''x>1'')]),
        DeletionsCompleted 0, GetBreakpointPositionsCall 0,
        ThreadSetBreakpointCall 0 (Some 10) (Some 0) (Some ''http://localhost/js/app.js'') (Some ''x>1'') None,
        VerifyBreakpointCall 0
          ((exampleBreakpoint 10 (Some ''x>1''))\<lparr> actualLine := Some 10, actualColumn := Some 0 \<rparr>)
          (Some 10) (Some 0),
        SyncFinished 0])"
  by (simp add: machine_defs example_defs exampleSynced_def)

theorem installed_keys_unique_witness:
  "list_all distinctRequests
     [UpdateBreakpoints [exampleBreakpoint 10 (Some ''x>1'')],
      Settle 0 DeletionsResolved, Settle 0 (PositionsResolved []), Settle 0 AdditionsResolved]
   \<and> installedKeys [exampleInstalled 10 (Some ''x>1'')]
       = [\<lparr> line = 10, column = None, condition = Some ''x>1'', logMessage = None \<rparr>]
   \<and> idle (exampleSynced [exampleBreakpoint 10 (Some ''x>1'')] 1 [])
   \<and> (\<exists>s'. exec exampleFindNext
          [UpdateBreakpoints [exampleBreakpoint 10 (Some ''x>2'')],
           Settle 1 DeletionsResolved, Settle 1 (PositionsResolved [])]
          (exampleSynced [exampleBreakpoint 10 (Some ''x>1'')] 1
            [SyncStarted 0 (Some [exampleBreakpoint 10 (Some ''x>1'')]),
             DeletionsCompleted 0, GetBreakpointPositionsCall 0,
             ThreadSetBreakpointCall 0 (Some 10) (Some 0) (Some ''http://localhost/js/app.js'') (Some ''x>1'') None,
             VerifyBreakpointCall 0
               ((exampleBreakpoint 10 (Some ''x>1''))\<lparr> actualLine := Some 10, actualColumn := Some 0 \<rparr>)
               (Some 10) (Some 0),
             SyncFinished 0]) = Some s'
        \<and> trace s' =
            [SyncStarted 0 (Some [exampleBreakpoint 10 (Some ''x>1'')]),
             DeletionsCompleted 0, GetBreakpointPositionsCall 0,
             ThreadSetBreakpointCall 0 (Some 10) (Some 0) (Some ''http://localhost/js/app.js'') (Some ''x>1'') None,
             VerifyBreakpointCall 0
               ((exampleBreakpoint 10 (Some ''x>1''))\<lparr> actualLine := Some 10, actualColumn := Some 0 \<rparr>)
               (Some 10) (Some 0),
             SyncFinished 0,
             SyncStarted 1 (Some [exampleBreakpoint 10 (Some ''x>2'')]),
             DeleteCall 1 (exampleInstalled 10 (Some ''x>1'')),
             DeletionsCompleted 1, GetBreakpointPositionsCall 1,
             ThreadSetBreakpointCall 1 (Some 10) (Some 0) (Some ''http://localhost/js/app.js'') (Some ''x>2'') None]
        \<and> currentBreakpoints s' = [exampleInstalled 10 (Some ''x>1'')])"
proof -
  have d: "list_all distinctRequests
     [UpdateBreakpoints [exampleBreakpoint 10 (Some ''x>1'')],
      Settle 0 DeletionsResolved, Settle 0 (PositionsResolved []), Settle 0 AdditionsResolved]"
    by simp
  have i: "idle (exampleSynced bs 1 tr)" for bs tr
    by (simp add: idle_def exampleSynced_def exampleAdapter_def newSourceAdapter_def)
  show ?thesis
    using installed_keys_unique [OF d changed_condition_first_run,
        of "[exampleBreakpoint 10 (Some ''x>2'')]" "[]"] d i
    by (simp add: exampleSynced_def example_defs newSourceAdapter_def installedKeys_def
          idle_def startRun_def staleInstalled_def missingDesired_def addCalls_def
          resolveActualLocation_def logValue_def Let_def truthyString_def
          del: exec.simps)
qed

text \<open>
  What the code does with a desired set that names one request twice: both descriptors
  have no equivalent installed, both are added, and the installed set holds the key twice.
\<close>

theorem installed_keys_unique_counterexample:
  "map_option (\<lambda>s. (installedKeys (currentBreakpoints s), isSyncingBreakpoints s, suspended s))
     (exec exampleFindNext
        [UpdateBreakpoints [exampleBreakpoint 5 None, exampleBreakpoint 5 None],
         Settle 0 DeletionsResolved, Settle 0 (PositionsResolved []), Settle 0 AdditionsResolved]
        (exampleAdapter True))
   = Some ([\<lparr> line = 5, column = None, condition = None, logMessage = None \<rparr>,
            \<lparr> line = 5, column = None, condition = None, logMessage = None \<rparr>], False, [])
   \<and> \<not> distinct [\<lparr> line = 5, column = None, condition = None, logMessage = None \<rparr>,
                   \<lparr> line = (5::int), column = None :: int option, condition = None :: string option,
                     logMessage = None :: string option \<rparr>]"
  by (simp add: machine_defs example_defs installedKeys_def)

section \<open>Rejected promises and runs without a pending set\<close>

text \<open>
  C2. Batches. The specification asks that, when one deletion or addition promise of a run
  is rejected, the other operations of the batch still complete and the run still
  finishes, merging the installed set and clearing the flag. What the code does: every
  operation of a batch is issued before the await and \<open>Promise.all\<close> cancels none of
  them, but it rejects as soon as one of them does, and syncBreakpoints catches nothing.
  Here two breakpoints are
  installed and a set without them is submitted: both deletions are issued, one is
  rejected, and the run ends at the await. The installed set still lists both
  breakpoints, the flag stays set although no run is in flight, and the set submitted
  afterwards stays pending.
\<close>

theorem rejected_batch_ends_run:
  "map_option (\<lambda>s. (currentBreakpoints s, isSyncingBreakpoints s, suspended s,
                     desiredBreakpoints s, drop 8 (trace s)))
     (exec exampleFindNext
        [UpdateBreakpoints [exampleBreakpoint 5 None, exampleBreakpoint 6 None],
         Settle 0 DeletionsResolved, Settle 0 (PositionsResolved []), Settle 0 AdditionsResolved,
         UpdateBreakpoints [exampleBreakpoint 7 None],
         Settle 1 Rejected,
         UpdateBreakpoints [exampleBreakpoint 7 None]]
        (exampleAdapter True))
   = Some ([exampleInstalled 5 None, exampleInstalled 6 None], True, [],
           Some [exampleBreakpoint 7 None],
           [SyncStarted 1 (Some [exampleBreakpoint 7 None]),
            DeleteCall 1 (exampleInstalled 5 None),
            DeleteCall 1 (exampleInstalled 6 None),
            SyncRejected 1])"
  by (simp add: machine_defs example_defs)

text \<open>
  C6. A run that starts without a pending set. Under the legacy protocol two submissions
  before the thread is paused queue two runs. The first captures the pending set and clears
  it, the second starts with \<open>desiredBreakpoints\<close> undefined: \<open>desiredBreakpoints.some\<close>
  throws when a breakpoint is installed, \<open>desiredBreakpoints.filter\<close> throws after the
  await when none is. The promise of the run is rejected, the flag stays set, and the set
  submitted afterwards stays pending.
\<close>

theorem syncBreakpoints_without_pending_set_rejects:
  "exec exampleFindNext
     [UpdateBreakpoints [exampleBreakpoint 5 None],
      UpdateBreakpoints [exampleBreakpoint 7 None],
      RunOnPausedThread,
      Settle 0 DeletionsResolved,
      Settle 0 (SourceAdditionsResolved [\<lparr> actualLocation = None, breakpointActor = ''bp1'' \<rparr>]),
      RunOnPausedThread,
      UpdateBreakpoints [exampleBreakpoint 9 None]]
     (exampleAdapter False)
   = Some ((exampleAdapter False)
       \<lparr> currentBreakpoints :=
           [OldProtocolBreakpointAdapter
              ((exampleBreakpoint 7 None)\<lparr> actualLine := Some 7, actualColumn := None \<rparr>) ''bp1''],
         desiredBreakpoints := Some [exampleBreakpoint 9 None],
         isSyncingBreakpoints := True,
         suspended := [], queuedOnPausedThread := 0, nextRun := 2,
         trace :=
           [SyncStarted 0 (Some [exampleBreakpoint 7 None]),
            DeletionsCompleted 0,
            SourceSetBreakpointCall 0 7 None None,
            VerifyBreakpointCall 0 (exampleBreakpoint 7 None) (Some 7) None,
            SyncFinished 0,
            SyncStarted 1 None,
            SyncRejected 1] \<rparr>)
   \<and> map_option (\<lambda>s. (isSyncingBreakpoints s, suspended s, trace s))
       (exec exampleFindNext
          [UpdateBreakpoints [], UpdateBreakpoints [], RunOnPausedThread,
           Settle 0 DeletionsResolved, Settle 0 (SourceAdditionsResolved []),
           RunOnPausedThread, Settle 1 DeletionsResolved]
          (exampleAdapter False))
     = Some (True, [],
         [SyncStarted 0 (Some []), DeletionsCompleted 0, SyncFinished 0,
          SyncStarted 1 None, DeletionsCompleted 1, SyncRejected 1])"
  by (simp add: machine_defs example_defs)


end
